theory Spec2Isabelle
  imports Complex_Main
begin

section \<open>JavaScript values\<close>

text \<open>
  Strings are lists of 8-bit characters: the Latin-1 range of JavaScript's UTF-16 code
  units, where \<open>length\<close> counts what \<open>String.prototype.length\<close> counts.

  A JavaScript number is a double. Only its order, its zero test and its special values
  matter below, so a finite number is a real and the three special values are kept apart.
\<close>

datatype jsnum = Finite real | PosInfinity | NegInfinity | NaN

text \<open>
  \<open>CitySuggestion\<close> of \<open>weatherApi.ts\<close>. The type parameter is the type of the three text
  fields: \<open>string\<close> where the TypeScript interface is trusted (the autocomplete
  component), a raw JavaScript value where the object is built from untyped JSON
  (\<open>searchCities\<close>). An absent \<open>state\<close> and the empty string are both falsy, and the
  component only ever tests \<open>state\<close> for truthiness, so the empty string stands for both.
\<close>

record 's CitySuggestion =
  name :: 's
  country :: 's
  state :: 's
  lat :: jsnum
  lon :: jsnum

text \<open>
  A value as \<open>response.json()\<close> delivers it, typed \<open>any\<close> by the source. An object is
  the list of its own properties.
\<close>

datatype jsval =
    JUndefined
  | JNull
  | JBool bool
  | JNum jsnum
  | JStr string
  | JArr "jsval list"
  | JObj "(string \<times> jsval) list"

text \<open>What a \<open>try\<close> block can catch.\<close>

datatype js_error = TypeError | RangeError | SyntaxError | FetchFailed

text \<open>\<open>ToBoolean\<close>, as \<open>||\<close> and \<open>!\<close> apply it.\<close>

definition truthy :: "jsval \<Rightarrow> bool" where
  "truthy v =
     (case v of
        JUndefined \<Rightarrow> False
      | JNull \<Rightarrow> False
      | JBool b \<Rightarrow> b
      | JNum n \<Rightarrow> n \<noteq> NaN \<and> n \<noteq> Finite 0
      | JStr s \<Rightarrow> s \<noteq> []
      | JArr xs \<Rightarrow> True
      | JObj kvs \<Rightarrow> True)"

text \<open>
  \<open>v.k\<close>: a \<open>TypeError\<close> on \<open>undefined\<close> and \<open>null\<close>, the own property of an object, and
  \<open>undefined\<close> otherwise. The names read by \<open>searchCities\<close> (\<open>type\<close>, \<open>name\<close>,
  \<open>display_name\<close>, \<open>address\<close>, \<open>lat\<close>, \<open>lon\<close>, \<open>country\<close>, \<open>state\<close>, \<open>region\<close>) are not
  properties of any prototype, so a primitive or an array has none of them.
\<close>

fun getProp :: "jsval \<Rightarrow> string \<Rightarrow> js_error + jsval" where
  "getProp JUndefined k = Inl TypeError"
| "getProp JNull k = Inl TypeError"
| "getProp (JObj kvs) k = Inr (case map_of kvs k of None \<Rightarrow> JUndefined | Some v \<Rightarrow> v)"
| "getProp v k = Inr JUndefined"

text \<open>\<open>v?.k\<close> and \<open>a || b\<close>.\<close>

definition optProp :: "jsval \<Rightarrow> string \<Rightarrow> jsval" where
  "optProp v k =
     (if v = JUndefined \<or> v = JNull then JUndefined
      else (case getProp v k of Inl e \<Rightarrow> JUndefined | Inr w \<Rightarrow> w))"

definition orElse :: "jsval \<Rightarrow> jsval \<Rightarrow> jsval" where
  "orElse a b = (if truthy a then a else b)"

text \<open>\<open>s.split(sep)\<close> for a one-character separator: never an empty array.\<close>

fun split :: "string \<Rightarrow> char \<Rightarrow> string list" where
  "split [] sep = [[]]"
| "split (c # cs) sep =
     (if c = sep then [] # split cs sep
      else (case split cs sep of [] \<Rightarrow> [[c]] | x # xs \<Rightarrow> (c # x) # xs))"

text \<open>
  \<open>s.trim()\<close>: the white space and line terminators of ECMAScript that fit in 8 bits
  (TAB, LF, VT, FF, CR, SP, NBSP) are removed at both ends.
\<close>

definition isWhiteSpace :: "char \<Rightarrow> bool" where
  "isWhiteSpace c \<longleftrightarrow> of_char c \<in> {9, 10, 11, 12, 13, 32, 160 :: nat}"

definition trim :: "string \<Rightarrow> string" where
  "trim s = rev (dropWhile isWhiteSpace (rev (dropWhile isWhiteSpace s)))"

text \<open>
  \<open>xs.filter(p)\<close> and \<open>xs.map(f)\<close> with a callback that may throw: the first exception
  ends the call.
\<close>

fun filterE :: "('a \<Rightarrow> js_error + bool) \<Rightarrow> 'a list \<Rightarrow> js_error + 'a list" where
  "filterE p [] = Inr []"
| "filterE p (x # xs) =
     (case p x of
        Inl e \<Rightarrow> Inl e
      | Inr b \<Rightarrow>
          (case filterE p xs of
             Inl e \<Rightarrow> Inl e
           | Inr ys \<Rightarrow> Inr (if b then x # ys else ys)))"

fun mapE :: "('a \<Rightarrow> js_error + 'b) \<Rightarrow> 'a list \<Rightarrow> js_error + 'b list" where
  "mapE f [] = Inr []"
| "mapE f (x # xs) =
     (case f x of
        Inl e \<Rightarrow> Inl e
      | Inr y \<Rightarrow> (case mapE f xs of Inl e \<Rightarrow> Inl e | Inr ys \<Rightarrow> Inr (y # ys)))"

text \<open>
  \<open>xs.slice(0, stop)\<close> for an integral \<open>stop\<close>: a negative one counts from the end.
\<close>

definition slice0 :: "'a list \<Rightarrow> int \<Rightarrow> 'a list" where
  "slice0 xs stop =
     (let len = int (length xs);
          final = (if stop < 0 then max (len + stop) 0 else min stop len)
      in take (nat final) xs)"

text \<open>\<open>Array.isArray\<close>.\<close>

definition isArray :: "jsval \<Rightarrow> bool" where
  "isArray v = (case v of JArr xs \<Rightarrow> True | _ \<Rightarrow> False)"


section \<open>The geocoding client (searchCities of weatherApi.ts)\<close>

text \<open>The callback of \<open>filter\<close>: \<open>item.type\<close> is one of the three place types.\<close>

definition isPlace :: "jsval \<Rightarrow> js_error + bool" where
  "isPlace item =
     (case getProp item ''type'' of
        Inl e \<Rightarrow> Inl e
      | Inr t \<Rightarrow> Inr (t = JStr ''city'' \<or> t = JStr ''town'' \<or> t = JStr ''administrative''))"

text \<open>
  \<open>d.split(',')[0]\<close>: only a string has a \<open>split\<close> method; on \<open>undefined\<close> and \<open>null\<close>
  the property read throws, on any other value the call of \<open>undefined\<close> (or of a JSON
  value) throws.
\<close>

definition splitFirst :: "jsval \<Rightarrow> js_error + jsval" where
  "splitFirst d =
     (case d of
        JStr s \<Rightarrow> Inr (case split s (CHR '','') of [] \<Rightarrow> JUndefined | x # xs \<Rightarrow> JStr x)
      | _ \<Rightarrow> Inl TypeError)"

text \<open>
  The callback of \<open>map\<close>. \<open>parseFloat\<close> is the built-in, taken as a parameter: it maps
  the value it is given (converted to a string) to a double.
\<close>

definition toSuggestion :: "(jsval \<Rightarrow> jsnum) \<Rightarrow> jsval \<Rightarrow> js_error + jsval CitySuggestion" where
  "toSuggestion parseFloat item =
     (case getProp item ''name'' of
        Inl e \<Rightarrow> Inl e
      | Inr n \<Rightarrow>
          (case (if truthy n then Inr n
                 else (case getProp item ''display_name'' of
                         Inl e \<Rightarrow> Inl e
                       | Inr d \<Rightarrow> splitFirst d)) of
             Inl e \<Rightarrow> Inl e
           | Inr nm \<Rightarrow>
               (case getProp item ''address'' of
                  Inl e \<Rightarrow> Inl e
                | Inr a \<Rightarrow>
                    (case getProp item ''lat'' of
                       Inl e \<Rightarrow> Inl e
                     | Inr la \<Rightarrow>
                         (case getProp item ''lon'' of
                            Inl e \<Rightarrow> Inl e
                          | Inr lo \<Rightarrow>
                              Inr \<lparr>name = nm,
                                   country = orElse (optProp a ''country'') (JStr []),
                                   state = orElse (optProp a ''state'')
                                             (orElse (optProp a ''region'') (JStr [])),
                                   lat = parseFloat la,
                                   lon = parseFloat lo\<rparr>)))))"

text \<open>
  The network. A request is the two values interpolated into the URL; \<open>fetch\<close> either
  rejects or resolves to a response with its \<open>ok\<close> flag and what \<open>response.json()\<close> will
  do. (\<open>encodeURIComponent\<close> throws on a lone surrogate, which an 8-bit string cannot
  hold; it would throw inside the \<open>try\<close> block.)
\<close>

record request =
  req_query :: string
  req_limit :: int

datatype json_result = JsonRejects | JsonResolves jsval

datatype fetch_result = FetchRejects | Response bool json_result

text \<open>The body of the \<open>try\<close> block.\<close>

definition searchCities_try ::
  "(jsval \<Rightarrow> jsnum) \<Rightarrow> (request \<Rightarrow> fetch_result) \<Rightarrow> string \<Rightarrow> int
     \<Rightarrow> js_error + jsval CitySuggestion list" where
  "searchCities_try parseFloat fetch query limit =
     (case fetch \<lparr>req_query = query, req_limit = limit\<rparr> of
        FetchRejects \<Rightarrow> Inl FetchFailed
      | Response ok body \<Rightarrow>
          if \<not> ok then Inr []
          else (case body of
                  JsonRejects \<Rightarrow> Inl SyntaxError
                | JsonResolves data \<Rightarrow>
                    (case data of
                       JArr items \<Rightarrow>
                         (case filterE isPlace items of
                            Inl e \<Rightarrow> Inl e
                          | Inr places \<Rightarrow> mapE (toSuggestion parseFloat) (slice0 places limit))
                     | _ \<Rightarrow> Inr [])))"

text \<open>
  \<open>searchCities\<close>: the requests it issued, and how its promise settles (\<open>Inl\<close> would be a
  rejection). The \<open>catch\<close> block logs the error and returns the empty list.
\<close>

definition searchCities ::
  "(jsval \<Rightarrow> jsnum) \<Rightarrow> (request \<Rightarrow> fetch_result) \<Rightarrow> string \<Rightarrow> int
     \<Rightarrow> request list \<times> (js_error + jsval CitySuggestion list)" where
  "searchCities parseFloat fetch query limit =
     (if trim query = [] \<or> length query < 2 then ([], Inr [])
      else ([\<lparr>req_query = query, req_limit = limit\<rparr>],
            (case searchCities_try parseFloat fetch query limit of
               Inl e \<Rightarrow> Inr []
             | Inr result \<Rightarrow> Inr result)))"

text \<open>Networks and responses used as concrete inputs.\<close>

definition offline :: "request \<Rightarrow> fetch_result" where
  "offline req = FetchRejects"

definition noFloat :: "jsval \<Rightarrow> jsnum" where
  "noFloat v = NaN"

definition sample_items :: "jsval list" where
  "sample_items =
     [JObj [(''type'', JStr ''city''), (''name'', JStr ''Paris''),
            (''display_name'', JStr ''Paris, Ile-de-France, France''),
            (''address'', JObj [(''state'', JStr ''Ile-de-France''), (''country'', JStr ''France'')]),
            (''lat'', JStr ''48.85''), (''lon'', JStr ''2.35'')],
      JObj [(''type'', JStr ''restaurant''), (''name'', JStr ''Paris Cafe'')],
      JObj [(''type'', JStr ''town''),
            (''display_name'', JStr ''Paris, Texas, United States''),
            (''lat'', JStr ''33.66''), (''lon'', JStr ''-95.55'')],
      JObj [(''type'', JStr ''administrative''), (''name'', JStr ''Paris''),
            (''lat'', JStr ''1''), (''lon'', JStr ''2'')]]"

definition sample_body :: jsval where
  "sample_body = JArr sample_items"

definition sample_net :: "request \<Rightarrow> fetch_result" where
  "sample_net req = Response True (JsonResolves sample_body)"

definition tagFloat :: "jsval \<Rightarrow> jsnum" where
  "tagFloat v = (if v = JStr ''48.85'' then Finite (4885 / 100) else NaN)"

definition error_body :: jsval where
  "error_body = JObj [(''error'', JStr ''Unable to geocode'')]"

definition error_net :: "request \<Rightarrow> fetch_result" where
  "error_net req = Response True (JsonResolves error_body)"

definition null_net :: "request \<Rightarrow> fetch_result" where
  "null_net req = Response True (JsonResolves (JArr [JNull]))"


section \<open>The autocomplete component (CityAutocomplete.tsx)\<close>

text \<open>
  The three \<open>useState\<close> cells, the \<open>value\<close> prop (the parent keeps it in its own state
  cell \<open>searchQuery\<close> and passes \<open>setSearchQuery\<close> as \<open>onChange\<close>) and the pending
  debounce timer, which holds the text its callback captured.
\<close>

record autocomplete =
  suggestions :: "string CitySuggestion list"
  isOpen :: bool
  selectedIndex :: int
  valueProp :: string
  debounce :: "string option"

text \<open>What a handler does besides updating the cells above.\<close>

datatype effect = PreventDefault | OnSelect "string CitySuggestion"

text \<open>
  The first \<open>useEffect\<close>, which runs after a render in which \<open>value\<close> changed: the
  pending timer is cleared; a text shorter than 2 clears the list and closes the panel;
  otherwise a new 300 ms timer is armed.
\<close>

definition valueEffect :: "autocomplete \<Rightarrow> autocomplete" where
  "valueEffect s =
     (if length (valueProp s) < 2
      then s\<lparr>debounce := None, suggestions := [], isOpen := False\<rparr>
      else s\<lparr>debounce := Some (valueProp s)\<rparr>)"

text \<open>
  Mounting with the text \<open>v\<close>: the first values of the cells, then the first run of
  the effect.
\<close>

definition mount :: "string \<Rightarrow> autocomplete" where
  "mount v =
     valueEffect \<lparr>suggestions = [], isOpen = False, selectedIndex = - 1,
       valueProp = v, debounce = None\<rparr>"

text \<open>\<open>onChange(v)\<close>: the parent stores \<open>v\<close>; the effect runs when the text changed.\<close>

definition onChange :: "autocomplete \<Rightarrow> string \<Rightarrow> autocomplete" where
  "onChange s v = (if v = valueProp s then s else valueEffect (s\<lparr>valueProp := v\<rparr>))"

definition handleInputChange :: "autocomplete \<Rightarrow> string \<Rightarrow> autocomplete" where
  "handleInputChange s v = onChange s v"

text \<open>The template \<open>`${city.name}${city.state ? `, ${city.state}` : ''}, ${city.country}`\<close>.\<close>

definition getCityDisplayName :: "string CitySuggestion \<Rightarrow> string" where
  "getCityDisplayName city =
     name city @ (if state city \<noteq> [] then '', '' @ state city else []) @ '', '' @ country city"

definition handleSelect :: "autocomplete \<Rightarrow> string CitySuggestion \<Rightarrow> autocomplete \<times> effect list" where
  "handleSelect s city =
     (onChange (s\<lparr>isOpen := False, suggestions := []\<rparr>) (getCityDisplayName city),
      [OnSelect city])"

text \<open>
  \<open>handleKeyDown\<close>, with \<open>e.key\<close> as its argument. The two updater functions read
  \<open>suggestions.length\<close> of the render the handler belongs to.
\<close>

definition handleKeyDown :: "autocomplete \<Rightarrow> string \<Rightarrow> autocomplete \<times> effect list" where
  "handleKeyDown s k =
     (if \<not> isOpen s \<or> length (suggestions s) = 0 then (s, [])
      else if k = ''ArrowDown'' then
        (s\<lparr>selectedIndex :=
            (if selectedIndex s < int (length (suggestions s)) - 1
             then selectedIndex s + 1 else selectedIndex s)\<rparr>,
         [PreventDefault])
      else if k = ''ArrowUp'' then
        (s\<lparr>selectedIndex := (if selectedIndex s > 0 then selectedIndex s - 1 else - 1)\<rparr>,
         [PreventDefault])
      else if k = ''Enter'' then
        (if selectedIndex s \<ge> 0 \<and> selectedIndex s < int (length (suggestions s))
         then (case handleSelect s (suggestions s ! nat (selectedIndex s)) of
                 (s', es) \<Rightarrow> (s', PreventDefault # es))
         else (s, [PreventDefault]))
      else if k = ''Escape'' then (s\<lparr>isOpen := False\<rparr>, [])
      else (s, []))"

text \<open>
  \<open>handleClickOutside\<close>: a \<open>mousedown\<close> anywhere in the document; the argument tells
  whether the container (mounted, so \<open>containerRef.current\<close> is set) contains the target.
\<close>

definition handleClickOutside :: "autocomplete \<Rightarrow> bool \<Rightarrow> autocomplete" where
  "handleClickOutside s inside = (if \<not> inside then s\<lparr>isOpen := False\<rparr> else s)"

definition onFocus :: "autocomplete \<Rightarrow> autocomplete" where
  "onFocus s = (if length (suggestions s) > 0 then s\<lparr>isOpen := True\<rparr> else s)"

text \<open>
  The timer callback after its \<open>await\<close>: \<open>searchCities\<close> has resolved to \<open>results\<close>.
\<close>

definition queryCompleted :: "autocomplete \<Rightarrow> string CitySuggestion list \<Rightarrow> autocomplete" where
  "queryCompleted s results =
     s\<lparr>suggestions := results, isOpen := (length results > 0), selectedIndex := - 1\<rparr>"

text \<open>The timer fires: its callback starts the query and the timer is no longer pending.\<close>

definition timerFired :: "autocomplete \<Rightarrow> autocomplete" where
  "timerFired s = s\<lparr>debounce := None\<rparr>"

text \<open>Everything that can happen to a mounted component, and the states it can reach.\<close>

datatype event =
    InputChange string
  | KeyDown string
  | MouseDown bool
  | Focus
  | ClickSuggestion nat
  | TimerFired
  | QueryCompleted "string CitySuggestion list"

fun step :: "autocomplete \<Rightarrow> event \<Rightarrow> autocomplete" where
  "step s (InputChange v) = handleInputChange s v"
| "step s (KeyDown k) = fst (handleKeyDown s k)"
| "step s (MouseDown inside) = handleClickOutside s inside"
| "step s Focus = onFocus s"
| "step s (ClickSuggestion i) =
     (if isOpen s \<and> i < length (suggestions s)
      then fst (handleSelect s (suggestions s ! i)) else s)"
| "step s TimerFired = timerFired s"
| "step s (QueryCompleted results) = queryCompleted s results"

inductive reachable :: "autocomplete \<Rightarrow> bool" where
  reachable_mount: "reachable (mount v)"
| reachable_step: "reachable s \<Longrightarrow> reachable (step s e)"

text \<open>Pressing the same key \<open>n\<close> times.\<close>

fun press :: "nat \<Rightarrow> string \<Rightarrow> autocomplete \<Rightarrow> autocomplete" where
  "press 0 k s = s"
| "press (Suc n) k s = press n k (fst (handleKeyDown s k))"

definition cursor_ok :: "autocomplete \<Rightarrow> bool" where
  "cursor_ok s \<longleftrightarrow>
     - 1 \<le> selectedIndex s \<and> selectedIndex s \<le> int (length (suggestions s)) - 1"

text \<open>
  What every reachable state satisfies: a non-empty list has its cursor in range, and an
  open panel has a non-empty list.
\<close>

definition panel_inv :: "autocomplete \<Rightarrow> bool" where
  "panel_inv s \<longleftrightarrow>
     (suggestions s = [] \<or> cursor_ok s) \<and> (isOpen s \<longrightarrow> suggestions s \<noteq> [])"

text \<open>Two suggestions and the state right after a query returned them.\<close>

definition stockholm :: "string CitySuggestion" where
  "stockholm = \<lparr>name = ''Stockholm'', country = ''Sweden'', state = [],
     lat = Finite 59, lon = Finite 18\<rparr>"

definition portland :: "string CitySuggestion" where
  "portland = \<lparr>name = ''Portland'', country = ''United States'', state = ''Oregon'',
     lat = Finite 45, lon = Finite (- 122)\<rparr>"

definition two_shown :: autocomplete where
  "two_shown = step (mount []) (QueryCompleted [stockholm, portland])"

section \<open>Dates (the built-in Date of ECMAScript)\<close>

text \<open>
  A time value is a number of milliseconds since the epoch; \<open>None\<close> is the time value
  \<open>NaN\<close> of an invalid date.
\<close>

type_synonym Date = "int option"

definition msPerDay :: int where
  "msPerDay = 86400000"

definition TimeClip :: "int \<Rightarrow> Date" where
  "TimeClip t = (if \<bar>t\<bar> > 8640000000000000 then None else Some t)"

text \<open>
  The host: what \<open>new Date()\<close> reads, and the local time zone as a fixed offset in
  minutes east of UTC.
\<close>

record host =
  now :: int
  tzMinutes :: int

definition LocalTime :: "host \<Rightarrow> int \<Rightarrow> int" where
  "LocalTime h t = t + tzMinutes h * 60000"

text \<open>Day number to year, month (1 to 12) and day of the month, proleptic Gregorian.\<close>

definition civil_from_days :: "int \<Rightarrow> int \<times> int \<times> int" where
  "civil_from_days z0 =
     (let z = z0 + 719468;
          era = z div 146097;
          doe = z mod 146097;
          yoe = (doe - doe div 1460 + doe div 36524 - doe div 146096) div 365;
          doy = doe - (365 * yoe + yoe div 4 - yoe div 100);
          mp = (5 * doy + 2) div 153;
          d = doy - (153 * mp + 2) div 5 + 1;
          m = (if mp < 10 then mp + 3 else mp - 9);
          y = yoe + era * 400
      in (if m \<le> 2 then y + 1 else y, m, d))"

definition days_from_civil :: "int \<Rightarrow> int \<Rightarrow> int \<Rightarrow> int" where
  "days_from_civil y0 m d =
     (let y = (if m \<le> 2 then y0 - 1 else y0);
          era = y div 400;
          yoe = y mod 400;
          doy = (153 * (if m > 2 then m - 3 else m + 9) + 2) div 5 + d - 1;
          doe = yoe * 365 + yoe div 4 - yoe div 100 + doy
      in era * 146097 + doe - 719468)"

text \<open>Decimal digits: \<open>pad n k\<close> is the last \<open>n\<close> digits of \<open>k\<close>, \<open>decimal k\<close> has no padding.\<close>

definition digit :: "int \<Rightarrow> char" where
  "digit k = char_of (48 + nat k)"

fun pad :: "nat \<Rightarrow> int \<Rightarrow> string" where
  "pad 0 k = []"
| "pad (Suc n) k = pad n (k div 10) @ [digit (k mod 10)]"

definition decimal :: "int \<Rightarrow> string" where
  "decimal k = (if k < 10 then pad 1 k else pad 2 k)"

text \<open>\<open>toISOString\<close>: a \<open>RangeError\<close> on an invalid date.\<close>

definition isoYear :: "int \<Rightarrow> string" where
  "isoYear y =
     (if 0 \<le> y \<and> y \<le> 9999 then pad 4 y
      else (if y < 0 then ''-'' else ''+'') @ pad 6 \<bar>y\<bar>)"

definition toISOString :: "Date \<Rightarrow> js_error + string" where
  "toISOString date =
     (case date of
        None \<Rightarrow> Inl RangeError
      | Some t \<Rightarrow>
          (case civil_from_days (t div msPerDay) of
             (y, m, d) \<Rightarrow>
               Inr (isoYear y @ ''-'' @ pad 2 m @ ''-'' @ pad 2 d @ ''T'' @
                    pad 2 (t mod msPerDay div 3600000) @ '':'' @
                    pad 2 (t mod 3600000 div 60000) @ '':'' @
                    pad 2 (t mod 60000 div 1000) @ ''.'' @ pad 3 (t mod 1000) @ ''Z'')))"

text \<open>
  \<open>new Date(s)\<close> for a date-only ISO string, which denotes midnight UTC: \<open>YYYY-MM-DD\<close>,
  or a sign and six digits for the year. Anything else is taken as unparsable; the
  component only parses keys that \<open>toISOString\<close> produced.
\<close>

fun digits_value :: "string \<Rightarrow> int option" where
  "digits_value [] = Some 0"
| "digits_value (c # cs) =
     (case digits_value cs of
        None \<Rightarrow> None
      | Some v \<Rightarrow>
          if (48::int) \<le> of_char c \<and> (of_char c :: int) \<le> 57
          then Some ((of_char c - 48) * 10 ^ length cs + v) else None)"

definition parseDateOnly :: "string \<Rightarrow> Date" where
  "parseDateOnly s =
     (let signed = (s \<noteq> [] \<and> (hd s = CHR ''+'' \<or> hd s = CHR ''-''));
          body = (if signed then tl s else s);
          n = (if signed then 6 else 4)
      in if length body = n + 6 \<and> body ! n = CHR ''-'' \<and> body ! (n + 3) = CHR ''-''
         then (case (digits_value (take n body),
                     digits_value (take 2 (drop (n + 1) body)),
                     digits_value (drop (n + 4) body)) of
                 (Some y, Some m, Some d) \<Rightarrow>
                   if 1 \<le> m \<and> m \<le> 12 \<and> 1 \<le> d \<and> d \<le> 31 \<and>
                      \<not> (signed \<and> hd s = CHR ''-'' \<and> y = 0)
                   then TimeClip
                          (days_from_civil (if signed \<and> hd s = CHR ''-'' then - y else y) m d
                             * msPerDay)
                   else None
               | _ \<Rightarrow> None)
         else None)"

text \<open>\<open>getHours()\<close>, \<open>setHours(0, 0, 0, 0)\<close>, \<open>setDate(getDate() + 1)\<close>, all in local time.\<close>

definition getHours :: "host \<Rightarrow> Date \<Rightarrow> int option" where
  "getHours h date =
     (case date of None \<Rightarrow> None | Some t \<Rightarrow> Some (LocalTime h t div 3600000 mod 24))"

definition setHours0 :: "host \<Rightarrow> Date \<Rightarrow> Date" where
  "setHours0 h date =
     (case date of
        None \<Rightarrow> None
      | Some t \<Rightarrow> TimeClip (LocalTime h t div msPerDay * msPerDay - tzMinutes h * 60000))"

definition setDateNext :: "host \<Rightarrow> Date \<Rightarrow> Date" where
  "setDateNext h date =
     (case date of
        None \<Rightarrow> None
      | Some t \<Rightarrow> TimeClip (LocalTime h t + msPerDay - tzMinutes h * 60000))"

text \<open>\<open>a.getTime() === b.getTime()\<close>: \<open>NaN\<close> equals nothing.\<close>

definition sameTime :: "Date \<Rightarrow> Date \<Rightarrow> bool" where
  "sameTime a b = (case (a, b) of (Some x, Some y) \<Rightarrow> x = y | _ \<Rightarrow> False)"

text \<open>
  \<open>toLocaleDateString('en-US', {weekday: 'short', month: 'short', day: 'numeric'})\<close>,
  as in \<open>Mon, Jan 1\<close>.
\<close>

definition weekdayShort :: "string list" where
  "weekdayShort = [''Sun'', ''Mon'', ''Tue'', ''Wed'', ''Thu'', ''Fri'', ''Sat'']"

definition monthShort :: "string list" where
  "monthShort = [''Jan'', ''Feb'', ''Mar'', ''Apr'', ''May'', ''Jun'',
                 ''Jul'', ''Aug'', ''Sep'', ''Oct'', ''Nov'', ''Dec'']"

definition toLocaleDateString :: "host \<Rightarrow> Date \<Rightarrow> string" where
  "toLocaleDateString h date =
     (case date of
        None \<Rightarrow> ''Invalid Date''
      | Some t \<Rightarrow>
          (let day = LocalTime h t div msPerDay in
           case civil_from_days day of
             (y, m, d) \<Rightarrow>
               weekdayShort ! nat ((day + 4) mod 7) @ '', '' @
               monthShort ! nat (m - 1) @ '' '' @ decimal d))"

section \<open>The forecast component (Forecast.tsx)\<close>

text \<open>
  \<open>ForecastItem\<close> of \<open>weatherApi.ts\<close>. The timestamp \<open>dt\<close> is a whole number of seconds,
  as the API delivers it, and a temperature is a finite number.
\<close>

record main_data =
  temp :: real
  feels_like :: real
  humidity :: real
  pressure :: real
  temp_min :: real
  temp_max :: real

record weather_data =
  w_main :: string
  description :: string
  icon :: string

record ForecastItem =
  dt :: int
  main :: main_data
  weather :: "weather_data list"
  wind_speed :: real
  dt_txt :: string

text \<open>\<open>new Date(item.dt * 1000)\<close> and the key \<open>date.toISOString().split('T')[0]\<close>.\<close>

definition itemDate :: "ForecastItem \<Rightarrow> Date" where
  "itemDate item = TimeClip (dt item * 1000)"

definition dateKeyOf :: "ForecastItem \<Rightarrow> js_error + string" where
  "dateKeyOf item =
     (case toISOString (itemDate item) of
        Inl e \<Rightarrow> Inl e
      | Inr isoText \<Rightarrow> (case split isoText (CHR ''T'') of [] \<Rightarrow> Inl TypeError | k # ks \<Rightarrow> Inr k))"

text \<open>
  The accumulator of \<open>reduce\<close> is an object with date keys: its entries in insertion
  order, which is the order \<open>Object.entries\<close> lists them in.
\<close>

type_synonym groups = "(string \<times> ForecastItem list) list"

fun pushItem :: "string \<Rightarrow> ForecastItem \<Rightarrow> groups \<Rightarrow> groups" where
  "pushItem k item [] = [(k, [item])]"
| "pushItem k item ((k', items) # acc) =
     (if k' = k then (k', items @ [item]) # acc else (k', items) # pushItem k item acc)"

fun reduceByDate :: "groups \<Rightarrow> ForecastItem list \<Rightarrow> js_error + groups" where
  "reduceByDate acc [] = Inr acc"
| "reduceByDate acc (item # rest) =
     (case dateKeyOf item of
        Inl e \<Rightarrow> Inl e
      | Inr dateKey \<Rightarrow> reduceByDate (pushItem dateKey item acc) rest)"

definition groupedByDate :: "ForecastItem list \<Rightarrow> js_error + groups" where
  "groupedByDate forecastItems = reduceByDate [] forecastItems"

text \<open>
  \<open>a.localeCompare(b)\<close> on date keys: character by character, in the order of the root
  collation on the characters a key is made of (hyphen, plus, then the digits), a
  proper prefix first.
\<close>

definition collationRank :: "char \<Rightarrow> nat" where
  "collationRank c =
     (if c = CHR ''-'' then 0 else if c = CHR ''+'' then 1 else 2 + of_char c)"

fun localeCompare :: "string \<Rightarrow> string \<Rightarrow> int" where
  "localeCompare [] [] = 0"
| "localeCompare [] (y # ys) = - 1"
| "localeCompare (x # xs) [] = 1"
| "localeCompare (x # xs) (y # ys) =
     (if collationRank x < collationRank y then - 1
      else if collationRank x > collationRank y then 1
      else localeCompare xs ys)"

text \<open>\<open>entries.sort(([a], [b]) => a.localeCompare(b))\<close>: a stable sort.\<close>

fun insertEntry :: "(string \<times> 'a) \<Rightarrow> (string \<times> 'a) list \<Rightarrow> (string \<times> 'a) list" where
  "insertEntry e [] = [e]"
| "insertEntry e (x # xs) =
     (if localeCompare (fst e) (fst x) \<le> 0 then e # x # xs else x # insertEntry e xs)"

fun sortEntries :: "(string \<times> 'a) list \<Rightarrow> (string \<times> 'a) list" where
  "sortEntries [] = []"
| "sortEntries (e # es) = insertEntry e (sortEntries es)"

text \<open>\<open>Math.min(...xs)\<close> and \<open>Math.max(...xs)\<close> on finite numbers.\<close>

fun Math_min :: "real list \<Rightarrow> jsnum" where
  "Math_min [] = PosInfinity"
| "Math_min (x # xs) = Finite (fold min xs x)"

fun Math_max :: "real list \<Rightarrow> jsnum" where
  "Math_max [] = NegInfinity"
| "Math_max (x # xs) = Finite (fold max xs x)"

text \<open>The callback of \<open>find\<close>: the local hour is between 11 and 14.\<close>

definition isNoon :: "host \<Rightarrow> ForecastItem \<Rightarrow> bool" where
  "isNoon h item =
     (case getHours h (itemDate item) of
        None \<Rightarrow> False
      | Some hour \<Rightarrow> hour \<ge> 11 \<and> hour \<le> 14)"

text \<open>\<open>xs[i]\<close> (\<open>undefined\<close> out of range) and \<open>a || b\<close> on objects.\<close>

definition at_index :: "'a list \<Rightarrow> nat \<Rightarrow> 'a option" where
  "at_index xs i = (if i < length xs then Some (xs ! i) else None)"

definition orObject :: "'a option \<Rightarrow> 'a option \<Rightarrow> 'a option" where
  "orObject a b = (case a of Some x \<Rightarrow> Some x | None \<Rightarrow> b)"

text \<open>\<open>noonForecast || items[Math.floor(items.length / 2)] || items[0]\<close>.\<close>

definition representative :: "host \<Rightarrow> ForecastItem list \<Rightarrow> ForecastItem option" where
  "representative h items =
     orObject (find (isNoon h) items)
       (orObject (at_index items (length items div 2)) (at_index items 0))"

text \<open>The label of a day.\<close>

definition displayDateOf :: "host \<Rightarrow> string \<Rightarrow> string" where
  "displayDateOf h dateKey =
     (let date = parseDateOnly dateKey;
          today = setHours0 h (TimeClip (now h));
          tomorrow = setDateNext h today;
          forecastDate = setHours0 h date
      in if sameTime forecastDate today then ''Today''
         else if sameTime forecastDate tomorrow then ''Tomorrow''
         else toLocaleDateString h date)"

record DailyForecast =
  date :: string
  displayDate :: string
  forecast :: "ForecastItem option"
  minTemp :: jsnum
  maxTemp :: jsnum
  allItems :: "ForecastItem list"

definition dayOf :: "host \<Rightarrow> string \<times> ForecastItem list \<Rightarrow> DailyForecast" where
  "dayOf h entry =
     (case entry of
        (dateKey, items) \<Rightarrow>
          \<lparr>date = dateKey,
           displayDate = displayDateOf h dateKey,
           forecast = representative h items,
           minTemp = Math_min (map (\<lambda>item. temp (main item)) items),
           maxTemp = Math_max (map (\<lambda>item. temp (main item)) items),
           allItems = items\<rparr>)"

definition dailyForecasts :: "host \<Rightarrow> ForecastItem list \<Rightarrow> js_error + DailyForecast list" where
  "dailyForecasts h forecastItems =
     (case groupedByDate forecastItems of
        Inl e \<Rightarrow> Inl e
      | Inr grouped \<Rightarrow> Inr (slice0 (map (dayOf h) (sortEntries grouped)) 5))"

text \<open>Forecast points and hosts used as concrete inputs.\<close>

definition point :: "int \<Rightarrow> real \<Rightarrow> ForecastItem" where
  "point t c =
     \<lparr>dt = t,
      main = \<lparr>temp = c, feels_like = c, humidity = 50, pressure = 1013,
              temp_min = c - 1, temp_max = c + 1\<rparr>,
      weather = [\<lparr>w_main = ''Clear'', description = ''clear sky'', icon = ''01d''\<rparr>],
      wind_speed = 3, dt_txt = []\<rparr>"

definition new_york_morning :: host where
  "new_york_morning = \<lparr>now = 1704121200000, tzMinutes = - 300\<rparr>"

definition kolkata_after_midnight :: host where
  "kolkata_after_midnight = \<lparr>now = 1704134400000, tzMinutes = 330\<rparr>"

text \<open>A timestamp whose date is valid, and its key.\<close>

definition validTime :: "ForecastItem \<Rightarrow> bool" where
  "validTime item \<longleftrightarrow> \<bar>dt item * 1000\<bar> \<le> 8640000000000000"

definition dateKey :: "ForecastItem \<Rightarrow> string" where
  "dateKey item = (case dateKeyOf item of Inl e \<Rightarrow> [] | Inr k \<Rightarrow> k)"

text \<open>The UTC calendar date of a time value, as \<open>YYYY-MM-DD\<close>.\<close>

definition utcDateText :: "int \<Rightarrow> string" where
  "utcDateText t =
     (case civil_from_days (t div msPerDay) of
        (y, m, d) \<Rightarrow> isoYear y @ ''-'' @ pad 2 m @ ''-'' @ pad 2 d)"

text \<open>
  What the accumulator of \<open>reduce\<close> satisfies after the items \<open>seen\<close>: one entry per
  key, and under each key the items of that key, in their order.
\<close>

definition grouped_inv :: "groups \<Rightarrow> ForecastItem list \<Rightarrow> bool" where
  "grouped_inv acc seen \<longleftrightarrow>
     distinct (map fst acc) \<and> fst ` set acc = dateKey ` set seen \<and>
     (\<forall>(k, v) \<in> set acc. v = filter (\<lambda>item. dateKey item = k) seen \<and> v \<noteq> [])"

definition utc_noon :: host where
  "utc_noon = \<lparr>now = 1704110400000, tzMinutes = 0\<rparr>"

definition six_days :: "ForecastItem list" where
  "six_days =
     [point 1704283200 7, point 1704110400 3, point 1704196800 4, point 1704542400 9,
      point 1704369600 2, point 1704456000 6, point 1704121200 5]"

definition two_days :: "ForecastItem list" where
  "two_days = [point 1704110400 3, point 1704121200 5, point 1704196800 4]"

definition morning_to_noon :: "ForecastItem list" where
  "morning_to_noon = [point 1704096000 1, point 1704106800 3, point 1704117600 5]"

definition night :: "ForecastItem list" where
  "night = [point 1704067200 1, point 1704078000 0, point 1704088800 2]"

definition new_year :: "ForecastItem list" where
  "new_year = [point 1704121200 3, point 1704207600 1]"

definition new_year_evening :: "ForecastItem list" where
  "new_year_evening = [point 1704142800 3, point 1704153600 1]"

section \<open>Properties of the geocoding client\<close>

lemma split_first: "\<exists>xs. split s sep = takeWhile (\<lambda>c. c \<noteq> sep) s # xs"
proof (induction s)
  case Nil
  show ?case by simp
next
  case (Cons c cs)
  then obtain xs where "split cs sep = takeWhile (\<lambda>c. c \<noteq> sep) cs # xs" by blast
  then show ?case by simp
qed

lemma splitFirst_Inr:
  "splitFirst d = Inr v \<Longrightarrow> \<exists>s. d = JStr s \<and> v = JStr (takeWhile (\<lambda>c. c \<noteq> CHR '','') s)"
proof (cases d)
  case (JStr s)
  assume a: "splitFirst d = Inr v"
  from split_first [of s "CHR '',''"] obtain xs
    where "split s (CHR '','') = takeWhile (\<lambda>c. c \<noteq> CHR '','') s # xs" by blast
  with a JStr show ?thesis by (simp add: splitFirst_def)
qed (simp_all add: splitFirst_def)

lemma filterE_Inr:
  "filterE p xs = Inr ys \<Longrightarrow> ys = filter (\<lambda>x. p x = Inr True) xs"
proof (induction xs arbitrary: ys)
  case Nil
  then show ?case by simp
next
  case (Cons x xs)
  then show ?case
    by (auto split: sum.splits if_splits)
qed

lemma mapE_Inr:
  "mapE f xs = Inr ys \<Longrightarrow> list_all2 (\<lambda>x y. f x = Inr y) xs ys"
proof (induction xs arbitrary: ys)
  case Nil
  then show ?case by simp
next
  case (Cons x xs)
  then show ?case
    by (auto split: sum.splits)
qed

lemma slice0_nonneg: "0 \<le> stop \<Longrightarrow> slice0 xs stop = take (nat stop) xs"
  by (simp add: slice0_def Let_def min_def)

lemma toSuggestion_Inr:
  assumes "toSuggestion parseFloat item = Inr s"
  shows "(\<exists>n. getProp item ''name'' = Inr n \<and>
            (if truthy n then name s = n
             else \<exists>d. getProp item ''display_name'' = Inr (JStr d) \<and>
                      name s = JStr (takeWhile (\<lambda>c. c \<noteq> CHR '','') d))) \<and>
         (\<exists>la lo. getProp item ''lat'' = Inr la \<and> getProp item ''lon'' = Inr lo \<and>
            lat s = parseFloat la \<and> lon s = parseFloat lo)"
proof -
  from assms obtain n where n: "getProp item ''name'' = Inr n"
    by (cases "getProp item ''name''") (simp_all add: toSuggestion_def)
  from assms n obtain a where a: "getProp item ''address'' = Inr a"
    by (cases item) (simp_all add: toSuggestion_def)
  from assms n obtain la where la: "getProp item ''lat'' = Inr la"
    by (cases item) (simp_all add: toSuggestion_def)
  from assms n obtain lo where lo: "getProp item ''lon'' = Inr lo"
    by (cases item) (simp_all add: toSuggestion_def)
  show ?thesis
  proof (cases "truthy n")
    case True
    with assms n a la lo show ?thesis
      by (auto simp: toSuggestion_def)
  next
    case False
    from assms n obtain d where d: "getProp item ''display_name'' = Inr d"
      by (cases item) (simp_all add: toSuggestion_def)
    from assms n False d a la lo obtain nm where nm: "splitFirst d = Inr nm"
      and s: "s = \<lparr>name = nm, country = orElse (optProp a ''country'') (JStr []),
                 state = orElse (optProp a ''state'') (orElse (optProp a ''region'') (JStr [])),
                 lat = parseFloat la, lon = parseFloat lo\<rparr>"
      by (cases "splitFirst d") (simp_all add: toSuggestion_def)
    from splitFirst_Inr [OF nm] obtain str where "d = JStr str"
      and "nm = JStr (takeWhile (\<lambda>c. c \<noteq> CHR '','') str)" by blast
    with n False d la lo s show ?thesis by simp
  qed
qed

lemma isPlace_True:
  "isPlace item = Inr True \<Longrightarrow>
   getProp item ''type'' = Inr (JStr ''city'') \<or> getProp item ''type'' = Inr (JStr ''town'') \<or>
   getProp item ''type'' = Inr (JStr ''administrative'')"
  by (cases "getProp item ''type''") (auto simp: isPlace_def)

lemma searchCities_Inr: "\<exists>result. snd (searchCities parseFloat fetch query limit) = Inr result"
  by (simp add: searchCities_def split: sum.split)

lemma searchCities_try_rejects:
  "fetch \<lparr>req_query = query, req_limit = limit\<rparr> = FetchRejects \<Longrightarrow>
   searchCities_try parseFloat fetch query limit = Inl FetchFailed"
  by (simp add: searchCities_try_def)

lemma searchCities_try_not_ok:
  "fetch \<lparr>req_query = query, req_limit = limit\<rparr> = Response False body \<Longrightarrow>
   searchCities_try parseFloat fetch query limit = Inr []"
  by (simp add: searchCities_try_def)

lemma searchCities_try_json_rejects:
  "fetch \<lparr>req_query = query, req_limit = limit\<rparr> = Response True JsonRejects \<Longrightarrow>
   searchCities_try parseFloat fetch query limit = Inl SyntaxError"
  by (simp add: searchCities_try_def)

lemma searchCities_try_not_array:
  "fetch \<lparr>req_query = query, req_limit = limit\<rparr> = Response True (JsonResolves data) \<Longrightarrow>
   \<not> isArray data \<Longrightarrow>
   searchCities_try parseFloat fetch query limit = Inr []"
  by (cases data) (simp_all add: searchCities_try_def isArray_def)

lemma searchCities_try_failure:
  assumes "fetch \<lparr>req_query = query, req_limit = limit\<rparr> = FetchRejects \<or>
     (\<exists>body. fetch \<lparr>req_query = query, req_limit = limit\<rparr> = Response False body) \<or>
     fetch \<lparr>req_query = query, req_limit = limit\<rparr> = Response True JsonRejects \<or>
     (\<exists>data. fetch \<lparr>req_query = query, req_limit = limit\<rparr> = Response True (JsonResolves data) \<and>
        \<not> isArray data)"
  shows "searchCities_try parseFloat fetch query limit \<in> {Inl FetchFailed, Inl SyntaxError, Inr []}"
  using assms searchCities_try_rejects [of fetch query limit parseFloat]
    searchCities_try_not_ok [of fetch query limit _ parseFloat]
    searchCities_try_json_rejects [of fetch query limit parseFloat]
    searchCities_try_not_array [of fetch query limit _ parseFloat]
  by blast

lemma searchCities_try_array:
  assumes "fetch \<lparr>req_query = query, req_limit = limit\<rparr> = Response True (JsonResolves (JArr data))"
      and "0 \<le> limit"
      and "searchCities_try parseFloat fetch query limit = Inr result"
  shows "list_all2 (\<lambda>item s. toSuggestion parseFloat item = Inr s)
           (take (nat limit) (filter (\<lambda>x. isPlace x = Inr True) data)) result"
proof -
  from assms(1,3) obtain places where p: "filterE isPlace data = Inr places"
    and m: "mapE (toSuggestion parseFloat) (slice0 places limit) = Inr result"
    by (cases "filterE isPlace data") (simp_all add: searchCities_try_def)
  from filterE_Inr [OF p] mapE_Inr [OF m] assms(2) show ?thesis
    by (simp add: slice0_nonneg)
qed

text \<open>
  Claim C4. The promise of \<open>searchCities\<close> never rejects, whatever the query, the limit,
  the network and \<open>parseFloat\<close> are; and when \<open>fetch\<close> rejects, or the response is not
  \<open>ok\<close>, or \<open>response.json()\<close> rejects, or the body is not an array, it resolves to the
  empty list.
\<close>

theorem searchCities_never_raises:
  "(\<exists>result. snd (searchCities parseFloat fetch query limit) = Inr result) \<and>
   (fetch \<lparr>req_query = query, req_limit = limit\<rparr> = FetchRejects \<or>
    (\<exists>body. fetch \<lparr>req_query = query, req_limit = limit\<rparr> = Response False body) \<or>
    fetch \<lparr>req_query = query, req_limit = limit\<rparr> = Response True JsonRejects \<or>
    (\<exists>data. fetch \<lparr>req_query = query, req_limit = limit\<rparr> = Response True (JsonResolves data) \<and>
       \<not> isArray data)
    \<longrightarrow> snd (searchCities parseFloat fetch query limit) = Inr [])"
proof (intro conjI impI)
  show "\<exists>result. snd (searchCities parseFloat fetch query limit) = Inr result"
    by (rule searchCities_Inr)
next
  assume "fetch \<lparr>req_query = query, req_limit = limit\<rparr> = FetchRejects \<or>
    (\<exists>body. fetch \<lparr>req_query = query, req_limit = limit\<rparr> = Response False body) \<or>
    fetch \<lparr>req_query = query, req_limit = limit\<rparr> = Response True JsonRejects \<or>
    (\<exists>data. fetch \<lparr>req_query = query, req_limit = limit\<rparr> = Response True (JsonResolves data) \<and>
       \<not> isArray data)"
  then have "searchCities_try parseFloat fetch query limit \<in> {Inl FetchFailed, Inl SyntaxError, Inr []}"
    by (rule searchCities_try_failure [where fetch = fetch and query = query and limit = limit])
  then show "snd (searchCities parseFloat fetch query limit) = Inr []"
    by (auto simp: searchCities_def)
qed

theorem searchCities_never_raises_witness:
  "offline \<lparr>req_query = ''Paris'', req_limit = 5\<rparr> = FetchRejects \<and>
   searchCities noFloat offline ''Paris'' 5 = ([\<lparr>req_query = ''Paris'', req_limit = 5\<rparr>], Inr []) \<and>
   \<not> isArray error_body \<and>
   error_net \<lparr>req_query = ''Paris'', req_limit = 5\<rparr> = Response True (JsonResolves error_body) \<and>
   snd (searchCities noFloat error_net ''Paris'' 5) = Inr [] \<and>
   snd (searchCities noFloat null_net ''Paris'' 5) = Inr []"
proof -
  have a: "offline \<lparr>req_query = ''Paris'', req_limit = 5\<rparr> = FetchRejects"
    by (simp add: offline_def)
  have b: "error_net \<lparr>req_query = ''Paris'', req_limit = 5\<rparr> = Response True (JsonResolves error_body)"
    by (simp add: error_net_def)
  have c: "\<not> isArray error_body"
    by (simp add: isArray_def error_body_def)
  have g: "fst (searchCities noFloat offline ''Paris'' 5) = [\<lparr>req_query = ''Paris'', req_limit = 5\<rparr>]"
    by (simp add: searchCities_def trim_def isWhiteSpace_def)
  from searchCities_never_raises [of noFloat offline "''Paris''" 5] a
  have 1: "snd (searchCities noFloat offline ''Paris'' 5) = Inr []" by blast
  from searchCities_never_raises [of noFloat error_net "''Paris''" 5] b c
  have 2: "snd (searchCities noFloat error_net ''Paris'' 5) = Inr []" by blast
  have 3: "snd (searchCities noFloat null_net ''Paris'' 5) = Inr []"
    by (simp add: searchCities_def searchCities_try_def null_net_def isPlace_def
        trim_def isWhiteSpace_def)
  from a b c g 1 2 3 show ?thesis by (simp add: prod_eq_iff)
qed

text \<open>
  Claim C5 as stated fails: the query \<open>'' a''\<close> has length 1 after trimming, and a request
  is issued for it.
\<close>

theorem trimmed_length_one_counterexample:
  "length (trim '' a'') < 2 \<and>
   fst (searchCities noFloat offline '' a'' 5) = [\<lparr>req_query = '' a'', req_limit = 5\<rparr>]"
  by (simp add: searchCities_def trim_def isWhiteSpace_def)

text \<open>
  Claim C5, as the code has it. The guard is \<open>!query.trim() || query.length < 2\<close>: no
  request is issued, and the result is empty, exactly when the query is blank or its
  untrimmed length is below 2. A query of untrimmed length 2 or more whose trimmed
  length is 1 issues a request.
\<close>

theorem searchCities_guard:
  "fst (searchCities parseFloat fetch query limit) =
     (if trim query = [] \<or> length query < 2 then []
      else [\<lparr>req_query = query, req_limit = limit\<rparr>]) \<and>
   (trim query = [] \<or> length query < 2 \<longrightarrow>
      searchCities parseFloat fetch query limit = ([], Inr []))"
  by (simp add: searchCities_def)

theorem searchCities_guard_witness:
  "trim ''   '' = [] \<and> searchCities noFloat sample_net ''   '' 5 = ([], Inr []) \<and>
   length ''P'' < 2 \<and> searchCities noFloat sample_net ''P'' 5 = ([], Inr []) \<and>
   fst (searchCities noFloat sample_net ''Pa'' 5) = [\<lparr>req_query = ''Pa'', req_limit = 5\<rparr>]"
proof -
  have a: "trim ''   '' = []" by (simp add: trim_def isWhiteSpace_def)
  have b: "length ''P'' < 2" by simp
  have c: "\<not> (trim ''Pa'' = [] \<or> length ''Pa'' < 2)" by (simp add: trim_def isWhiteSpace_def)
  from searchCities_guard [of noFloat sample_net "''   ''" 5] a
  have 1: "searchCities noFloat sample_net ''   '' 5 = ([], Inr [])" by blast
  from searchCities_guard [of noFloat sample_net "''P''" 5] b
  have 2: "searchCities noFloat sample_net ''P'' 5 = ([], Inr [])" by blast
  from searchCities_guard [of noFloat sample_net "''Pa''" 5] c
  have 3: "fst (searchCities noFloat sample_net ''Pa'' 5) = [\<lparr>req_query = ''Pa'', req_limit = 5\<rparr>]"
    by simp
  from a b 1 2 3 show ?thesis by simp
qed

text \<open>
  Claim C6. For an array response and a limit that is not negative, the list returned
  has at most \<open>limit\<close> entries, and every entry comes from a record of the response whose
  \<open>type\<close> is \<open>city\<close>, \<open>town\<close> or \<open>administrative\<close>: its name is the record's \<open>name\<close> when
  that is truthy, otherwise the part of the string \<open>display_name\<close> before its first comma,
  and its \<open>lat\<close> and \<open>lon\<close> are \<open>parseFloat\<close> of the record's \<open>lat\<close> and \<open>lon\<close>.
\<close>

theorem searchCities_result_shape:
  assumes "fetch \<lparr>req_query = query, req_limit = limit\<rparr> = Response True (JsonResolves (JArr data))"
      and "0 \<le> limit"
  shows "\<exists>result. snd (searchCities parseFloat fetch query limit) = Inr result \<and>
     int (length result) \<le> limit \<and>
     (\<forall>s \<in> set result. \<exists>item \<in> set data.
        (getProp item ''type'' = Inr (JStr ''city'') \<or> getProp item ''type'' = Inr (JStr ''town'') \<or>
         getProp item ''type'' = Inr (JStr ''administrative'')) \<and>
        (\<exists>n. getProp item ''name'' = Inr n \<and>
           (if truthy n then name s = n
            else \<exists>d. getProp item ''display_name'' = Inr (JStr d) \<and>
                     name s = JStr (takeWhile (\<lambda>c. c \<noteq> CHR '','') d))) \<and>
        (\<exists>la lo. getProp item ''lat'' = Inr la \<and> getProp item ''lon'' = Inr lo \<and>
           lat s = parseFloat la \<and> lon s = parseFloat lo))"
proof -
  obtain result where r: "snd (searchCities parseFloat fetch query limit) = Inr result"
    using searchCities_Inr by blast
  show ?thesis
  proof (cases "result = []")
    case True
    with r assms(2) show ?thesis by simp
  next
    case False
    with r have t: "searchCities_try parseFloat fetch query limit = Inr result"
      by (auto simp: searchCities_def split: if_splits sum.splits)
    let ?places = "take (nat limit) (filter (\<lambda>x. isPlace x = Inr True) data)"
    from assms t
    have a: "list_all2 (\<lambda>item s. toSuggestion parseFloat item = Inr s) ?places result"
      by (rule searchCities_try_array [where fetch = fetch and query = query])
    then have l: "length ?places = length result" by (rule list_all2_lengthD)
    have "length ?places \<le> nat limit" by simp
    with l assms(2) have len: "int (length result) \<le> limit" by linarith
    have each: "\<exists>item \<in> set data. isPlace item = Inr True \<and> toSuggestion parseFloat item = Inr s"
      if "s \<in> set result" for s
    proof -
      from that obtain i where i: "i < length result" "result ! i = s"
        by (auto simp: in_set_conv_nth)
      from l i have il: "i < length ?places" by simp
      with a have "toSuggestion parseFloat (?places ! i) = Inr (result ! i)"
        by (rule list_all2_nthD)
      with i have "toSuggestion parseFloat (?places ! i) = Inr s" by simp
      moreover from il have "?places ! i \<in> set ?places"
        by (rule nth_mem)
      then have "?places ! i \<in> set (filter (\<lambda>x. isPlace x = Inr True) data)"
        by (rule in_set_takeD)
      ultimately show ?thesis by auto
    qed
    show ?thesis
    proof (intro exI conjI ballI)
      show "snd (searchCities parseFloat fetch query limit) = Inr result" by (rule r)
      show "int (length result) \<le> limit" by (rule len)
    next
      fix s assume "s \<in> set result"
      from each [OF this] obtain item where "item \<in> set data" "isPlace item = Inr True"
        "toSuggestion parseFloat item = Inr s" by blast
      with isPlace_True [of item] toSuggestion_Inr [of parseFloat item s]
      show "\<exists>item \<in> set data.
        (getProp item ''type'' = Inr (JStr ''city'') \<or> getProp item ''type'' = Inr (JStr ''town'') \<or>
         getProp item ''type'' = Inr (JStr ''administrative'')) \<and>
        (\<exists>n. getProp item ''name'' = Inr n \<and>
           (if truthy n then name s = n
            else \<exists>d. getProp item ''display_name'' = Inr (JStr d) \<and>
                     name s = JStr (takeWhile (\<lambda>c. c \<noteq> CHR '','') d))) \<and>
        (\<exists>la lo. getProp item ''lat'' = Inr la \<and> getProp item ''lon'' = Inr lo \<and>
           lat s = parseFloat la \<and> lon s = parseFloat lo)"
        by blast
    qed
  qed
qed

theorem searchCities_result_shape_witness:
  "sample_net \<lparr>req_query = ''Paris'', req_limit = 2\<rparr> = Response True (JsonResolves sample_body) \<and>
   (0::int) \<le> 2 \<and>
   snd (searchCities tagFloat sample_net ''Paris'' 2) =
     Inr [\<lparr>name = JStr ''Paris'', country = JStr ''France'', state = JStr ''Ile-de-France'',
           lat = Finite (4885 / 100), lon = NaN\<rparr>,
          \<lparr>name = JStr ''Paris'', country = JStr [], state = JStr [], lat = NaN, lon = NaN\<rparr>] \<and>
   (\<exists>result. snd (searchCities tagFloat sample_net ''Paris'' 2) = Inr result \<and>
      int (length result) \<le> 2)"
proof -
  have a: "sample_net \<lparr>req_query = ''Paris'', req_limit = 2\<rparr> =
      Response True (JsonResolves (JArr sample_items))"
    by (simp add: sample_net_def sample_body_def)
  have b: "(0::int) \<le> 2" by simp
  from a b searchCities_result_shape [where fetch = sample_net and query = "''Paris''"
      and limit = 2 and data = sample_items and parseFloat = tagFloat]
  have c: "\<exists>result. snd (searchCities tagFloat sample_net ''Paris'' 2) = Inr result \<and>
      int (length result) \<le> 2" by blast
  have d: "snd (searchCities tagFloat sample_net ''Paris'' 2) =
     Inr [\<lparr>name = JStr ''Paris'', country = JStr ''France'', state = JStr ''Ile-de-France'',
           lat = Finite (4885 / 100), lon = NaN\<rparr>,
          \<lparr>name = JStr ''Paris'', country = JStr [], state = JStr [], lat = NaN, lon = NaN\<rparr>]"
    by (simp add: searchCities_def searchCities_try_def sample_net_def sample_body_def
        sample_items_def isPlace_def toSuggestion_def splitFirst_def slice0_def truthy_def
        optProp_def orElse_def tagFloat_def trim_def isWhiteSpace_def)
  from a b c d show ?thesis by (simp add: sample_body_def)
qed

section \<open>Properties of the autocomplete component\<close>

lemma panel_inv_closed_empty:
  "panel_inv (s\<lparr>isOpen := False, suggestions := []\<rparr>)"
  by (simp add: panel_inv_def)

lemma panel_inv_valueEffect: "panel_inv s \<Longrightarrow> panel_inv (valueEffect s)"
  by (simp add: panel_inv_def valueEffect_def cursor_ok_def)

lemma panel_inv_valueProp: "panel_inv s \<Longrightarrow> panel_inv (s\<lparr>valueProp := v\<rparr>)"
  by (simp add: panel_inv_def cursor_ok_def)

lemma panel_inv_onChange: "panel_inv s \<Longrightarrow> panel_inv (onChange s v)"
  by (simp add: onChange_def panel_inv_valueEffect panel_inv_valueProp)

lemma panel_inv_handleSelect: "panel_inv (fst (handleSelect s city))"
  by (simp add: handleSelect_def panel_inv_onChange panel_inv_closed_empty)

lemma panel_inv_cursor:
  "panel_inv s \<Longrightarrow> suggestions s \<noteq> [] \<Longrightarrow>
   - 1 \<le> i \<Longrightarrow> i \<le> int (length (suggestions s)) - 1 \<Longrightarrow>
   panel_inv (s\<lparr>selectedIndex := i\<rparr>)"
  by (simp add: panel_inv_def cursor_ok_def)

lemma panel_inv_close: "panel_inv s \<Longrightarrow> panel_inv (s\<lparr>isOpen := False\<rparr>)"
  by (simp add: panel_inv_def cursor_ok_def)

lemma handleKeyDown_closed:
  "\<not> isOpen s \<or> suggestions s = [] \<Longrightarrow> handleKeyDown s k = (s, [])"
  by (simp add: handleKeyDown_def)

lemma handleKeyDown_ArrowDown:
  "isOpen s \<Longrightarrow> suggestions s \<noteq> [] \<Longrightarrow>
   handleKeyDown s ''ArrowDown'' =
     (s\<lparr>selectedIndex :=
         (if selectedIndex s < int (length (suggestions s)) - 1
          then selectedIndex s + 1 else selectedIndex s)\<rparr>, [PreventDefault])"
  by (simp add: handleKeyDown_def)

lemma handleKeyDown_ArrowUp:
  "isOpen s \<Longrightarrow> suggestions s \<noteq> [] \<Longrightarrow>
   handleKeyDown s ''ArrowUp'' =
     (s\<lparr>selectedIndex := (if selectedIndex s > 0 then selectedIndex s - 1 else - 1)\<rparr>,
      [PreventDefault])"
  by (simp add: handleKeyDown_def)

lemma handleKeyDown_Enter:
  "isOpen s \<Longrightarrow> suggestions s \<noteq> [] \<Longrightarrow>
   handleKeyDown s ''Enter'' =
     (if 0 \<le> selectedIndex s \<and> selectedIndex s < int (length (suggestions s))
      then (fst (handleSelect s (suggestions s ! nat (selectedIndex s))),
            PreventDefault # snd (handleSelect s (suggestions s ! nat (selectedIndex s))))
      else (s, [PreventDefault]))"
  by (simp add: handleKeyDown_def split: prod.split)

lemma handleKeyDown_Escape:
  "isOpen s \<Longrightarrow> suggestions s \<noteq> [] \<Longrightarrow>
   handleKeyDown s ''Escape'' = (s\<lparr>isOpen := False\<rparr>, [])"
  by (simp add: handleKeyDown_def)

lemma handleKeyDown_other:
  "k \<noteq> ''ArrowDown'' \<Longrightarrow> k \<noteq> ''ArrowUp'' \<Longrightarrow> k \<noteq> ''Enter'' \<Longrightarrow> k \<noteq> ''Escape'' \<Longrightarrow>
   handleKeyDown s k = (s, [])"
  by (simp add: handleKeyDown_def)

lemma panel_inv_handleKeyDown: "panel_inv s \<Longrightarrow> panel_inv (fst (handleKeyDown s k))"
proof -
  assume inv: "panel_inv s"
  show ?thesis
  proof (cases "\<not> isOpen s \<or> suggestions s = []")
    case True
    then show ?thesis using inv by (simp add: handleKeyDown_closed)
  next
    case False
    then have op: "isOpen s" and ne: "suggestions s \<noteq> []" by simp_all
    from inv ne have cur: "cursor_ok s" by (simp add: panel_inv_def)
    consider "k = ''ArrowDown''" | "k = ''ArrowUp''" | "k = ''Enter''" | "k = ''Escape''"
      | "k \<noteq> ''ArrowDown''" "k \<noteq> ''ArrowUp''" "k \<noteq> ''Enter''" "k \<noteq> ''Escape''"
      by blast
    then show ?thesis
    proof cases
      case 1
      with op ne cur inv show ?thesis
        by (simp add: handleKeyDown_ArrowDown panel_inv_cursor cursor_ok_def)
    next
      case 2
      with op ne cur inv show ?thesis
        by (simp add: handleKeyDown_ArrowUp panel_inv_cursor cursor_ok_def)
    next
      case 3
      with op ne inv show ?thesis
        by (simp add: handleKeyDown_Enter panel_inv_handleSelect)
    next
      case 4
      with op ne inv show ?thesis
        by (simp add: handleKeyDown_Escape panel_inv_close)
    next
      case 5
      with inv show ?thesis by (simp add: handleKeyDown_other)
    qed
  qed
qed

lemma panel_inv_step: "panel_inv s \<Longrightarrow> panel_inv (step s e)"
proof (cases e)
  case (InputChange v)
  assume "panel_inv s"
  with InputChange show ?thesis by (simp add: handleInputChange_def panel_inv_onChange)
next
  case (KeyDown k)
  assume "panel_inv s"
  with KeyDown show ?thesis by (simp add: panel_inv_handleKeyDown)
next
  case (MouseDown inside)
  assume "panel_inv s"
  with MouseDown show ?thesis by (simp add: handleClickOutside_def panel_inv_close)
next
  case Focus
  assume "panel_inv s"
  with Focus show ?thesis by (auto simp: onFocus_def panel_inv_def cursor_ok_def)
next
  case (ClickSuggestion i)
  assume "panel_inv s"
  with ClickSuggestion show ?thesis by (simp add: panel_inv_handleSelect)
next
  case TimerFired
  assume "panel_inv s"
  with TimerFired show ?thesis by (simp add: timerFired_def panel_inv_def cursor_ok_def)
next
  case (QueryCompleted results)
  then show ?thesis by (simp add: queryCompleted_def panel_inv_def cursor_ok_def)
qed

lemma reachable_panel_inv: "reachable s \<Longrightarrow> panel_inv s"
proof (induction rule: reachable.induct)
  case (reachable_mount v)
  have "panel_inv \<lparr>suggestions = [], isOpen = False, selectedIndex = - 1,
      valueProp = v, debounce = None\<rparr>"
    by (simp add: panel_inv_def)
  then show ?case
    unfolding mount_def by (rule panel_inv_valueEffect)
next
  case (reachable_step s e)
  then show ?case by (simp add: panel_inv_step)
qed

lemma press_ArrowDown:
  "isOpen s \<Longrightarrow> suggestions s \<noteq> [] \<Longrightarrow> cursor_ok s \<Longrightarrow>
   press n ''ArrowDown'' s =
     s\<lparr>selectedIndex := min (selectedIndex s + int n) (int (length (suggestions s)) - 1)\<rparr>"
proof (induction n arbitrary: s)
  case 0
  then show ?case by (simp add: cursor_ok_def min_def)
next
  case (Suc n)
  let ?t = "fst (handleKeyDown s ''ArrowDown'')"
  from Suc.prems have t: "?t = s\<lparr>selectedIndex :=
      (if selectedIndex s < int (length (suggestions s)) - 1
       then selectedIndex s + 1 else selectedIndex s)\<rparr>"
    by (simp add: handleKeyDown_ArrowDown)
  from Suc.prems t have "isOpen ?t" "suggestions ?t \<noteq> []" "cursor_ok ?t"
    by (simp_all add: cursor_ok_def)
  from Suc.IH [OF this] have "press n ''ArrowDown'' ?t =
      ?t\<lparr>selectedIndex := min (selectedIndex ?t + int n) (int (length (suggestions ?t)) - 1)\<rparr>" .
  with t Suc.prems show ?case
    by (simp add: cursor_ok_def min_def)
qed

lemma reachable_two_shown: "reachable two_shown"
  unfolding two_shown_def by (rule reachable_step) (rule reachable_mount)

lemma two_shown_eq:
  "two_shown = \<lparr>suggestions = [stockholm, portland], isOpen = True, selectedIndex = - 1,
     valueProp = [], debounce = None\<rparr>"
  by (simp add: two_shown_def queryCompleted_def mount_def valueEffect_def)

text \<open>
  Claim C7. With the panel open on a list of \<open>len \<ge> 1\<close> suggestions, the cursor of every
  reachable state lies in \<open>[-1, len - 1]\<close>. ArrowDown moves it to
  \<open>min (cursor + 1) (len - 1)\<close> and ArrowUp to \<open>max (cursor - 1) (-1)\<close>, both leaving the
  rest of the state alone, so \<open>n\<close> presses of ArrowDown lead to
  \<open>min (cursor + n) (len - 1)\<close>: from \<open>-1\<close>, \<open>len\<close> presses land on \<open>len - 1\<close> and any
  further press stays there. Enter calls \<open>handleSelect\<close> on the suggestion at the cursor
  when the cursor is in \<open>[0, len - 1]\<close>; otherwise it changes no state and calls no
  callback (the handler still calls \<open>e.preventDefault()\<close>, as for every handled key).
\<close>

theorem keyboard_cursor_contract:
  assumes "isOpen s" and "suggestions s \<noteq> []"
  shows "(reachable s \<longrightarrow> cursor_ok s) \<and>
    (cursor_ok s \<longrightarrow>
      handleKeyDown s ''ArrowDown'' =
        (s\<lparr>selectedIndex := min (selectedIndex s + 1) (int (length (suggestions s)) - 1)\<rparr>,
         [PreventDefault]) \<and>
      handleKeyDown s ''ArrowUp'' =
        (s\<lparr>selectedIndex := max (selectedIndex s - 1) (- 1)\<rparr>, [PreventDefault]) \<and>
      cursor_ok (fst (handleKeyDown s ''ArrowDown'')) \<and>
      cursor_ok (fst (handleKeyDown s ''ArrowUp'')) \<and>
      (\<forall>n. press n ''ArrowDown'' s =
        s\<lparr>selectedIndex := min (selectedIndex s + int n) (int (length (suggestions s)) - 1)\<rparr>) \<and>
      (selectedIndex s = - 1 \<longrightarrow>
        (\<forall>m. selectedIndex (press (length (suggestions s) + m) ''ArrowDown'' s) =
           int (length (suggestions s)) - 1)) \<and>
      handleKeyDown s ''Enter'' =
        (if 0 \<le> selectedIndex s \<and> selectedIndex s \<le> int (length (suggestions s)) - 1
         then (fst (handleSelect s (suggestions s ! nat (selectedIndex s))),
               [PreventDefault, OnSelect (suggestions s ! nat (selectedIndex s))])
         else (s, [PreventDefault])))"
proof (intro conjI impI allI)
  assume "reachable s"
  with assms(2) show "cursor_ok s"
    using reachable_panel_inv [of s] by (simp add: panel_inv_def)
next
  assume "cursor_ok s"
  with assms show "handleKeyDown s ''ArrowDown'' =
      (s\<lparr>selectedIndex := min (selectedIndex s + 1) (int (length (suggestions s)) - 1)\<rparr>,
       [PreventDefault])"
    by (simp add: handleKeyDown_ArrowDown cursor_ok_def min_def)
next
  assume "cursor_ok s"
  with assms show "handleKeyDown s ''ArrowUp'' =
      (s\<lparr>selectedIndex := max (selectedIndex s - 1) (- 1)\<rparr>, [PreventDefault])"
    by (simp add: handleKeyDown_ArrowUp cursor_ok_def max_def)
next
  assume "cursor_ok s"
  with assms show "cursor_ok (fst (handleKeyDown s ''ArrowDown''))"
    by (simp add: handleKeyDown_ArrowDown cursor_ok_def)
next
  assume "cursor_ok s"
  with assms show "cursor_ok (fst (handleKeyDown s ''ArrowUp''))"
    by (simp add: handleKeyDown_ArrowUp cursor_ok_def)
next
  fix n
  assume "cursor_ok s"
  with assms show "press n ''ArrowDown'' s =
      s\<lparr>selectedIndex := min (selectedIndex s + int n) (int (length (suggestions s)) - 1)\<rparr>"
    by (rule press_ArrowDown)
next
  fix m
  assume c: "cursor_ok s" and "selectedIndex s = - 1"
  then show "selectedIndex (press (length (suggestions s) + m) ''ArrowDown'' s) =
      int (length (suggestions s)) - 1"
    by (simp add: press_ArrowDown [OF assms c])
next
  assume "cursor_ok s"
  from assms show "handleKeyDown s ''Enter'' =
      (if 0 \<le> selectedIndex s \<and> selectedIndex s \<le> int (length (suggestions s)) - 1
       then (fst (handleSelect s (suggestions s ! nat (selectedIndex s))),
             [PreventDefault, OnSelect (suggestions s ! nat (selectedIndex s))])
       else (s, [PreventDefault]))"
    by (simp add: handleKeyDown_Enter handleSelect_def)
qed

theorem keyboard_cursor_contract_witness:
  "isOpen two_shown \<and> suggestions two_shown \<noteq> [] \<and> reachable two_shown \<and>
   cursor_ok two_shown \<and> selectedIndex two_shown = - 1 \<and>
   selectedIndex (press 2 ''ArrowDown'' two_shown) = 1 \<and>
   selectedIndex (press 5 ''ArrowDown'' two_shown) = 1 \<and>
   selectedIndex (fst (handleKeyDown (press 2 ''ArrowDown'' two_shown) ''ArrowUp'')) = 0 \<and>
   handleKeyDown two_shown ''ArrowUp'' = (two_shown, [PreventDefault]) \<and>
   handleKeyDown two_shown ''Enter'' = (two_shown, [PreventDefault]) \<and>
   snd (handleKeyDown (press 2 ''ArrowDown'' two_shown) ''Enter'') =
     [PreventDefault, OnSelect portland]"
proof -
  have o: "isOpen two_shown" and ne: "suggestions two_shown \<noteq> []"
    and i: "selectedIndex two_shown = - 1" and l: "length (suggestions two_shown) = 2"
    by (simp_all add: two_shown_eq)
  note k = keyboard_cursor_contract [OF o ne]
  from k reachable_two_shown have c: "cursor_ok two_shown" by blast
  from k c have p: "\<And>n. press n ''ArrowDown'' two_shown =
      two_shown\<lparr>selectedIndex := min (selectedIndex two_shown + int n)
        (int (length (suggestions two_shown)) - 1)\<rparr>"
    by blast
  have p2: "press 2 ''ArrowDown'' two_shown = two_shown\<lparr>selectedIndex := 1\<rparr>"
    by (simp add: p i l)
  have p5: "press 5 ''ArrowDown'' two_shown = two_shown\<lparr>selectedIndex := 1\<rparr>"
    by (simp add: p i l)
  have o2: "isOpen (two_shown\<lparr>selectedIndex := 1\<rparr>)"
    and ne2: "suggestions (two_shown\<lparr>selectedIndex := 1\<rparr>) \<noteq> []"
    and c2: "cursor_ok (two_shown\<lparr>selectedIndex := 1\<rparr>)"
    by (simp_all add: two_shown_eq cursor_ok_def)
  note k2 = keyboard_cursor_contract [OF o2 ne2]
  from k2 c2 have up2: "handleKeyDown (two_shown\<lparr>selectedIndex := 1\<rparr>) ''ArrowUp'' =
      (two_shown\<lparr>selectedIndex := 0\<rparr>, [PreventDefault])"
    by simp
  from k2 c2 have en2: "snd (handleKeyDown (two_shown\<lparr>selectedIndex := 1\<rparr>) ''Enter'') =
      [PreventDefault, OnSelect portland]"
    by (simp add: two_shown_eq)
  from k c have up: "handleKeyDown two_shown ''ArrowUp'' = (two_shown, [PreventDefault])"
    by (simp add: i)
  from k c have en: "handleKeyDown two_shown ''Enter'' = (two_shown, [PreventDefault])"
    by (simp add: i)
  show ?thesis
    using o ne reachable_two_shown c i up en by (simp add: p2 p5 up2 en2)
qed

text \<open>
  Claim C9. Escape pressed while the panel is open, and a \<open>mousedown\<close> outside the
  container, both set \<open>isOpen\<close> to false and change nothing else: the text, the
  suggestion list and the cursor are the same afterwards.
\<close>

theorem escape_and_click_outside_only_close:
  assumes "isOpen s" and "reachable s \<or> suggestions s \<noteq> []"
  shows "handleKeyDown s ''Escape'' = (s\<lparr>isOpen := False\<rparr>, []) \<and>
         handleClickOutside s False = s\<lparr>isOpen := False\<rparr> \<and>
         step s (KeyDown ''Escape'') = s\<lparr>isOpen := False\<rparr> \<and>
         step s (MouseDown False) = s\<lparr>isOpen := False\<rparr> \<and>
         valueProp (s\<lparr>isOpen := False\<rparr>) = valueProp s \<and>
         suggestions (s\<lparr>isOpen := False\<rparr>) = suggestions s \<and>
         selectedIndex (s\<lparr>isOpen := False\<rparr>) = selectedIndex s \<and>
         \<not> isOpen (s\<lparr>isOpen := False\<rparr>)"
proof -
  from assms have "suggestions s \<noteq> []"
    using reachable_panel_inv [of s] by (auto simp: panel_inv_def)
  with assms(1) show ?thesis
    by (simp add: handleKeyDown_Escape handleClickOutside_def)
qed

theorem escape_and_click_outside_only_close_witness:
  "isOpen two_shown \<and> reachable two_shown \<and>
   step two_shown (KeyDown ''Escape'') =
     \<lparr>suggestions = [stockholm, portland], isOpen = False, selectedIndex = - 1,
      valueProp = [], debounce = None\<rparr> \<and>
   step two_shown (MouseDown False) =
     \<lparr>suggestions = [stockholm, portland], isOpen = False, selectedIndex = - 1,
      valueProp = [], debounce = None\<rparr>"
proof -
  have o: "isOpen two_shown" by (simp add: two_shown_eq)
  have r: "reachable two_shown \<or> suggestions two_shown \<noteq> []"
    using reachable_two_shown by simp
  from escape_and_click_outside_only_close [OF o r] o reachable_two_shown
  show ?thesis by (simp add: two_shown_eq)
qed

text \<open>
  Claim C10. When a query completes, the suggestion list becomes the returned list, the
  cursor becomes \<open>-1\<close>, and the panel is open exactly when the returned list is not
  empty; the text and the timer are untouched.
\<close>

theorem query_completion_replaces_list:
  "step s (QueryCompleted results) =
     s\<lparr>suggestions := results, isOpen := (results \<noteq> []), selectedIndex := - 1\<rparr> \<and>
   suggestions (step s (QueryCompleted results)) = results \<and>
   selectedIndex (step s (QueryCompleted results)) = - 1 \<and>
   isOpen (step s (QueryCompleted results)) = (results \<noteq> [])"
  by (simp add: queryCompleted_def)

section \<open>Properties of the forecast component\<close>

lemma collationRank_inj: "collationRank x = collationRank y \<Longrightarrow> x = y"
  by (auto simp: collationRank_def split: if_splits)

lemma localeCompare_range: "localeCompare a b \<in> {- 1, 0, 1}"
  by (induction a b rule: localeCompare.induct) auto

lemma localeCompare_eq: "localeCompare a b = 0 \<Longrightarrow> a = b"
  by (induction a b rule: localeCompare.induct)
     (auto split: if_splits dest: collationRank_inj)

lemma localeCompare_refl: "localeCompare a a = 0"
  by (induction a) auto

lemma localeCompare_flip: "localeCompare b a = - localeCompare a b"
  by (induction a b rule: localeCompare.induct) auto

lemma localeCompare_trans:
  "localeCompare a b \<le> 0 \<Longrightarrow> localeCompare b c \<le> 0 \<Longrightarrow> localeCompare a c \<le> 0"
proof (induction a b arbitrary: c rule: localeCompare.induct)
  case 1
  then show ?case by simp
next
  case (2 y ys)
  then show ?case by (cases c) auto
next
  case (3 x xs)
  then show ?case by simp
next
  case (4 x xs y ys)
  show ?case
  proof (cases c)
    case Nil
    with 4 show ?thesis by simp
  next
    case (Cons z zs)
    from "4.prems"(1) have xy: "collationRank x \<le> collationRank y"
      by (simp split: if_splits)
    from "4.prems"(2) Cons have yz: "collationRank y \<le> collationRank z"
      by (simp split: if_splits)
    show ?thesis
    proof (cases "collationRank x < collationRank z")
      case True
      with Cons show ?thesis by simp
    next
      case False
      with xy yz have e: "collationRank x = collationRank y" "collationRank y = collationRank z"
        by simp_all
      with "4.prems" Cons have "localeCompare xs ys \<le> 0" "localeCompare ys zs \<le> 0"
        by simp_all
      with "4.IH" e have "localeCompare xs zs \<le> 0" by simp
      with e Cons show ?thesis by simp
    qed
  qed
qed

lemma localeCompare_total: "localeCompare a b \<le> 0 \<or> localeCompare b a \<le> 0"
  using localeCompare_flip [of b a] by linarith

lemma localeCompare_strict:
  "localeCompare a b \<le> 0 \<Longrightarrow> a \<noteq> b \<Longrightarrow> localeCompare a b < 0"
  using localeCompare_eq [of a b] by linarith

lemma set_insertEntry: "set (insertEntry e xs) = insert e (set xs)"
  by (induction xs) auto

lemma length_insertEntry: "length (insertEntry e xs) = Suc (length xs)"
  by (induction xs) auto

lemma set_sortEntries: "set (sortEntries xs) = set xs"
  by (induction xs) (auto simp: set_insertEntry)

lemma length_sortEntries: "length (sortEntries xs) = length xs"
  by (induction xs) (auto simp: length_insertEntry)

lemma sorted_insertEntry:
  "sorted_wrt (\<lambda>a b. localeCompare (fst a) (fst b) \<le> 0) xs \<Longrightarrow>
   sorted_wrt (\<lambda>a b. localeCompare (fst a) (fst b) \<le> 0) (insertEntry e xs)"
proof (induction xs)
  case Nil
  then show ?case by simp
next
  case (Cons x xs)
  show ?case
  proof (cases "localeCompare (fst e) (fst x) \<le> 0")
    case True
    with Cons.prems show ?thesis
      by (auto intro: localeCompare_trans)
  next
    case False
    then have "localeCompare (fst x) (fst e) \<le> 0"
      using localeCompare_total [of "fst e" "fst x"] by simp
    with False Cons show ?thesis
      by (auto simp: set_insertEntry)
  qed
qed

lemma sorted_sortEntries:
  "sorted_wrt (\<lambda>a b. localeCompare (fst a) (fst b) \<le> 0) (sortEntries xs)"
  by (induction xs) (auto intro: sorted_insertEntry)

lemma distinct_keys_sortEntries:
  assumes "distinct (map fst xs)"
  shows "distinct (map fst (sortEntries xs))"
proof -
  have "card (fst ` set xs) = length xs"
    using assms distinct_card [of "map fst xs"] by simp
  then have "card (set (map fst (sortEntries xs))) = length (map fst (sortEntries xs))"
    by (simp add: set_sortEntries length_sortEntries)
  then show ?thesis by (rule card_distinct)
qed

lemma sorted_wrt_strict_keys:
  "sorted_wrt (\<lambda>a b. localeCompare (fst a) (fst b) \<le> 0) xs \<Longrightarrow> distinct (map fst xs) \<Longrightarrow>
   sorted_wrt (\<lambda>a b. localeCompare a b < 0) (map fst xs)"
proof (induction xs)
  case Nil
  then show ?case by simp
next
  case (Cons x xs)
  have "localeCompare (fst x) (fst y) < 0" if "y \<in> set xs" for y
  proof -
    from Cons.prems(1) that have "localeCompare (fst x) (fst y) \<le> 0" by simp
    moreover from Cons.prems(2) that have "fst x \<noteq> fst y" by force
    ultimately show ?thesis by (rule localeCompare_strict)
  qed
  with Cons show ?case by simp
qed

lemma split_nonempty: "split s sep \<noteq> []"
  by (cases s) (auto split: list.splits)

lemma dateKeyOf_valid: "validTime item \<Longrightarrow> dateKeyOf item = Inr (dateKey item)"
proof -
  assume "validTime item"
  then obtain t where t: "itemDate item = Some t"
    by (simp add: validTime_def itemDate_def TimeClip_def)
  obtain y m d where c: "civil_from_days (t div msPerDay) = (y, m, d)"
    by (cases "civil_from_days (t div msPerDay)")
  from t c obtain isoText where i: "toISOString (itemDate item) = Inr isoText"
    by (simp add: toISOString_def)
  obtain k ks where "split isoText (CHR ''T'') = k # ks"
    using split_nonempty [of isoText "CHR ''T''"] by (cases "split isoText (CHR ''T'')") auto
  with i show ?thesis by (simp add: dateKeyOf_def dateKey_def)
qed

lemma digit_not_T: "digit (k mod 10) \<noteq> CHR ''T''"
proof
  assume "digit (k mod 10) = CHR ''T''"
  then have "of_char (digit (k mod 10)) = (of_char (CHR ''T'') :: nat)" by simp
  then have "(48 + nat (k mod 10)) mod 256 = (84 :: nat)"
    by (simp add: digit_def)
  moreover have "nat (k mod 10) < 10" by simp
  ultimately show False by simp
qed

lemma pad_no_T: "CHR ''T'' \<notin> set (pad n k)"
  by (induction n arbitrary: k) (simp_all add: digit_not_T [THEN not_sym])

lemma isoYear_no_T: "CHR ''T'' \<notin> set (isoYear y)"
  by (simp add: isoYear_def pad_no_T)

lemma split_prefix:
  "sep \<notin> set a \<Longrightarrow> \<exists>rest. split (a @ sep # b) sep = a # rest"
proof (induction a)
  case Nil
  show ?case by simp
next
  case (Cons c cs)
  then obtain rest where "split (cs @ sep # b) sep = cs # rest" by auto
  moreover from Cons.prems have "c \<noteq> sep" by auto
  ultimately show ?case by simp
qed

lemma dateKey_utcDateText: "validTime item \<Longrightarrow> dateKey item = utcDateText (dt item * 1000)"
proof -
  assume "validTime item"
  then have t: "itemDate item = Some (dt item * 1000)"
    by (simp add: validTime_def itemDate_def TimeClip_def)
  obtain y m d where c: "civil_from_days (dt item * 1000 div msPerDay) = (y, m, d)"
    by (cases "civil_from_days (dt item * 1000 div msPerDay)")
  let ?a = "isoYear y @ ''-'' @ pad 2 m @ ''-'' @ pad 2 d"
  let ?b = "pad 2 (dt item * 1000 mod msPerDay div 3600000) @ '':'' @
      pad 2 (dt item * 1000 mod 3600000 div 60000) @ '':'' @
      pad 2 (dt item * 1000 mod 60000 div 1000) @ ''.'' @ pad 3 (dt item * 1000 mod 1000) @ ''Z''"
  have "CHR ''T'' \<notin> set ?a"
    using pad_no_T [of 2 m] pad_no_T [of 2 d] isoYear_no_T [of y] by simp
  from split_prefix [OF this, of ?b] obtain rest
    where r: "split (?a @ CHR ''T'' # ?b) (CHR ''T'') = ?a # rest" by blast
  from t c have "toISOString (itemDate item) = Inr (?a @ CHR ''T'' # ?b)"
    by (simp add: toISOString_def)
  with r have "dateKeyOf item = Inr ?a"
    by (simp only: dateKeyOf_def sum.case list.case)
  with c show ?thesis
    by (simp add: dateKey_def utcDateText_def)
qed

lemma reduceByDate_valid:
  "\<forall>item \<in> set items. validTime item \<Longrightarrow>
   reduceByDate acc items = Inr (foldl (\<lambda>a item. pushItem (dateKey item) item a) acc items)"
  by (induction items arbitrary: acc) (simp_all add: dateKeyOf_valid)

lemma keys_pushItem_list:
  "set (map fst (pushItem k item acc)) = insert k (set (map fst acc))"
proof (induction acc)
  case Nil
  show ?case by simp
next
  case (Cons e acc)
  obtain k' v where "e = (k', v)" by (cases e)
  with Cons show ?case by (cases "k' = k") auto
qed

lemma keys_pushItem: "fst ` set (pushItem k item acc) = insert k (fst ` set acc)"
  using keys_pushItem_list [of k item acc] by simp

lemma distinct_pushItem:
  "distinct (map fst acc) \<Longrightarrow> distinct (map fst (pushItem k item acc))"
proof (induction acc)
  case Nil
  then show ?case by simp
next
  case (Cons e acc)
  obtain k' v where e: "e = (k', v)" by (cases e)
  with Cons keys_pushItem [of k item acc] show ?case by auto
qed

lemma pushItem_cases:
  "distinct (map fst acc) \<Longrightarrow> (k', v) \<in> set (pushItem k item acc) \<Longrightarrow>
   (k' = k \<and> ((v = [item] \<and> k \<notin> fst ` set acc) \<or> (\<exists>u. (k, u) \<in> set acc \<and> v = u @ [item]))) \<or>
   (k' \<noteq> k \<and> (k', v) \<in> set acc)"
proof (induction acc)
  case Nil
  then show ?case by simp
next
  case (Cons e acc)
  obtain k0 v0 where e: "e = (k0, v0)" by (cases e)
  show ?case
  proof (cases "k0 = k")
    case True
    with Cons.prems e have "(k', v) = (k, v0 @ [item]) \<or> (k', v) \<in> set acc"
      by simp
    then show ?thesis
    proof
      assume "(k', v) = (k, v0 @ [item])"
      with True e show ?thesis by auto
    next
      assume a: "(k', v) \<in> set acc"
      from Cons.prems(1) e True have "k \<notin> fst ` set acc" by simp
      with a have "k' \<noteq> k" by force
      with a show ?thesis by simp
    qed
  next
    case False
    from Cons.prems(1) have d: "distinct (map fst acc)" by simp
    from False Cons.prems e have "(k', v) = (k0, v0) \<or> (k', v) \<in> set (pushItem k item acc)"
      by simp
    then show ?thesis
    proof
      assume "(k', v) = (k0, v0)"
      with False e show ?thesis by auto
    next
      assume "(k', v) \<in> set (pushItem k item acc)"
      from Cons.IH [OF d this] False e show ?thesis by auto
    qed
  qed
qed

lemma grouped_inv_pushItem:
  assumes "grouped_inv acc seen"
  shows "grouped_inv (pushItem (dateKey item) item acc) (seen @ [item])"
proof -
  from assms have d: "distinct (map fst acc)" and k: "fst ` set acc = dateKey ` set seen"
    and c: "\<And>k v. (k, v) \<in> set acc \<Longrightarrow> v = filter (\<lambda>item. dateKey item = k) seen \<and> v \<noteq> []"
    by (auto simp: grouped_inv_def)
  have "v = filter (\<lambda>x. dateKey x = k') (seen @ [item]) \<and> v \<noteq> []"
    if "(k', v) \<in> set (pushItem (dateKey item) item acc)" for k' v
  proof -
    from pushItem_cases [OF d that]
    consider "k' = dateKey item" "v = [item]" "dateKey item \<notin> fst ` set acc"
      | u where "k' = dateKey item" "(dateKey item, u) \<in> set acc" "v = u @ [item]"
      | "k' \<noteq> dateKey item" "(k', v) \<in> set acc"
      by blast
    then show ?thesis
    proof cases
      case 1
      with k have "dateKey item \<notin> dateKey ` set seen" by simp
      then have "\<forall>x \<in> set seen. dateKey x \<noteq> dateKey item" by (metis imageI)
      then have "filter (\<lambda>x. dateKey x = dateKey item) seen = []"
        by (simp add: filter_empty_conv)
      with 1 show ?thesis by simp
    next
      case 2
      with c [of "dateKey item" u] show ?thesis by simp
    next
      case 3
      with c [of k' v] show ?thesis by auto
    qed
  qed
  then have "\<forall>(k', v) \<in> set (pushItem (dateKey item) item acc).
      v = filter (\<lambda>x. dateKey x = k') (seen @ [item]) \<and> v \<noteq> []"
    by blast
  moreover from d have "distinct (map fst (pushItem (dateKey item) item acc))"
    by (rule distinct_pushItem)
  moreover from k have "fst ` set (pushItem (dateKey item) item acc) = dateKey ` set (seen @ [item])"
    by (simp add: keys_pushItem)
  ultimately show ?thesis
    unfolding grouped_inv_def by blast
qed

lemma grouped_inv_foldl:
  "grouped_inv acc seen \<Longrightarrow>
   grouped_inv (foldl (\<lambda>a item. pushItem (dateKey item) item a) acc items) (seen @ items)"
proof (induction items arbitrary: acc seen)
  case Nil
  then show ?case by simp
next
  case (Cons item items)
  from Cons.IH [OF grouped_inv_pushItem [OF Cons.prems, of item]]
  show ?case by simp
qed

lemma groupedByDate_valid:
  assumes "\<forall>item \<in> set items. validTime item"
  shows "\<exists>grouped. groupedByDate items = Inr grouped \<and> grouped_inv grouped items"
proof -
  have "grouped_inv [] []" by (simp add: grouped_inv_def)
  from grouped_inv_foldl [OF this, of items] reduceByDate_valid [OF assms, of "[]"]
  show ?thesis by (simp add: groupedByDate_def)
qed

lemma date_dayOf: "map date (map (dayOf h) es) = map fst es"
  by (induction es) (auto simp: dayOf_def split: prod.splits)

lemma slice0_5: "slice0 xs 5 = take 5 xs"
  by (simp add: slice0_nonneg)

lemma sorted_wrt_take: "sorted_wrt P xs \<Longrightarrow> sorted_wrt P (take n xs)"
proof (induction xs arbitrary: n)
  case Nil
  then show ?case by simp
next
  case (Cons x xs)
  then show ?case
    by (cases n) (auto dest: in_set_takeD)
qed

lemma Math_min_Min: "xs \<noteq> [] \<Longrightarrow> Math_min xs = Finite (Min (set xs))"
  by (cases xs) (simp_all add: Min.set_eq_fold [symmetric])

lemma Math_max_Max: "xs \<noteq> [] \<Longrightarrow> Math_max xs = Finite (Max (set xs))"
  by (cases xs) (simp_all add: Max.set_eq_fold [symmetric])

lemma dailyForecasts_valid:
  assumes "\<forall>item \<in> set forecastItems. validTime item"
  shows "\<exists>grouped. grouped_inv grouped forecastItems \<and>
     dailyForecasts h forecastItems = Inr (take 5 (map (dayOf h) (sortEntries grouped)))"
proof -
  from groupedByDate_valid [OF assms] obtain grouped
    where "groupedByDate forecastItems = Inr grouped" "grouped_inv grouped forecastItems"
    by blast
  then show ?thesis by (auto simp: dailyForecasts_def slice0_5)
qed

text \<open>
  Claim C1. When every timestamp denotes a valid date, the key of an item is the UTC
  calendar date of its timestamp, written \<open>YYYY-MM-DD\<close>, and the component returns
  \<open>min N 5\<close> days, where \<open>N\<close> is the number of distinct date keys of the items; the
  keys of the days are strictly ascending in the order of \<open>localeCompare\<close>, and each is the
  key of one of the items. (On a timestamp beyond the range of \<open>Date\<close> the call of
  \<open>toISOString\<close> throws a \<open>RangeError\<close>.)
\<close>

theorem daily_buckets_count_and_order:
  assumes "\<forall>item \<in> set forecastItems. validTime item"
  shows "(\<forall>item \<in> set forecastItems. dateKey item = utcDateText (dt item * 1000)) \<and>
     (\<exists>days. dailyForecasts h forecastItems = Inr days \<and>
        length days = min (card (dateKey ` set forecastItems)) 5 \<and>
        sorted_wrt (\<lambda>a b. localeCompare a b < 0) (map date days) \<and>
        set (map date days) \<subseteq> dateKey ` set forecastItems)"
proof -
  from dailyForecasts_valid [OF assms, of h] obtain grouped
    where inv: "grouped_inv grouped forecastItems"
      and res: "dailyForecasts h forecastItems = Inr (take 5 (map (dayOf h) (sortEntries grouped)))"
    by blast
  let ?days = "take 5 (map (dayOf h) (sortEntries grouped))"
  from inv have d: "distinct (map fst grouped)"
    and k: "fst ` set grouped = dateKey ` set forecastItems"
    by (simp_all add: grouped_inv_def)
  from d have "card (fst ` set grouped) = length grouped"
    using distinct_card [of "map fst grouped"] by simp
  with k have n: "length grouped = card (dateKey ` set forecastItems)" by simp
  have dates: "map date ?days = take 5 (map fst (sortEntries grouped))"
    by (simp only: take_map [symmetric] date_dayOf)
  have 1: "length ?days = min (card (dateKey ` set forecastItems)) 5"
    by (simp add: length_sortEntries n)
  from d have "distinct (map fst (sortEntries grouped))"
    by (rule distinct_keys_sortEntries)
  with sorted_sortEntries [of grouped]
  have "sorted_wrt (\<lambda>a b. localeCompare a b < 0) (map fst (sortEntries grouped))"
    by (rule sorted_wrt_strict_keys)
  then have 2: "sorted_wrt (\<lambda>a b. localeCompare a b < 0) (map date ?days)"
    unfolding dates by (rule sorted_wrt_take)
  have "set (map date ?days) \<subseteq> set (map fst (sortEntries grouped))"
    unfolding dates by (rule set_take_subset)
  with k have 3: "set (map date ?days) \<subseteq> dateKey ` set forecastItems"
    by (simp add: set_sortEntries)
  from res 1 2 3 have "\<exists>days. dailyForecasts h forecastItems = Inr days \<and>
      length days = min (card (dateKey ` set forecastItems)) 5 \<and>
      sorted_wrt (\<lambda>a b. localeCompare a b < 0) (map date days) \<and>
      set (map date days) \<subseteq> dateKey ` set forecastItems"
    by (intro exI [of _ ?days] conjI)
  moreover from assms
  have "\<forall>item \<in> set forecastItems. dateKey item = utcDateText (dt item * 1000)"
    by (simp add: dateKey_utcDateText)
  ultimately show ?thesis by (intro conjI)
qed

text \<open>
  Claim C3. Every day returned holds exactly the items of its key, at least one, and its
  \<open>minTemp\<close> and \<open>maxTemp\<close> are the least and the greatest \<open>main.temp\<close> of those items
  (\<open>temp_min\<close> and \<open>temp_max\<close> are not read): every item's \<open>temp\<close> lies between them, and
  \<open>minTemp \<le> maxTemp\<close>.
\<close>

theorem day_min_max_temperature:
  assumes "\<forall>item \<in> set forecastItems. validTime item"
  shows "\<exists>days. dailyForecasts h forecastItems = Inr days \<and>
     (\<forall>day \<in> set days.
        allItems day = filter (\<lambda>item. dateKey item = date day) forecastItems \<and>
        allItems day \<noteq> [] \<and>
        (\<exists>lo hi.
           minTemp day = Finite lo \<and> maxTemp day = Finite hi \<and>
           lo = Min ((\<lambda>item. temp (main item)) ` set (allItems day)) \<and>
           hi = Max ((\<lambda>item. temp (main item)) ` set (allItems day)) \<and>
           (\<forall>item \<in> set (allItems day). lo \<le> temp (main item) \<and> temp (main item) \<le> hi) \<and>
           lo \<le> hi))"
proof -
  from dailyForecasts_valid [OF assms, of h] obtain grouped
    where inv: "grouped_inv grouped forecastItems"
      and res: "dailyForecasts h forecastItems = Inr (take 5 (map (dayOf h) (sortEntries grouped)))"
    by blast
  let ?days = "take 5 (map (dayOf h) (sortEntries grouped))"
  have each: "allItems day = filter (\<lambda>item. dateKey item = date day) forecastItems \<and>
        allItems day \<noteq> [] \<and>
        (\<exists>lo hi.
           minTemp day = Finite lo \<and> maxTemp day = Finite hi \<and>
           lo = Min ((\<lambda>item. temp (main item)) ` set (allItems day)) \<and>
           hi = Max ((\<lambda>item. temp (main item)) ` set (allItems day)) \<and>
           (\<forall>item \<in> set (allItems day). lo \<le> temp (main item) \<and> temp (main item) \<le> hi) \<and>
           lo \<le> hi)"
    if "day \<in> set ?days" for day
  proof -
    from that have "day \<in> set (map (dayOf h) (sortEntries grouped))"
      by (rule in_set_takeD)
    then obtain k v where kv: "(k, v) \<in> set grouped" and day: "day = dayOf h (k, v)"
      by (auto simp: set_sortEntries)
    from inv kv have v: "v = filter (\<lambda>item. dateKey item = k) forecastItems" and ne: "v \<noteq> []"
      by (auto simp: grouped_inv_def)
    let ?temps = "map (\<lambda>item. temp (main item)) v"
    from ne have tne: "?temps \<noteq> []" by simp
    have fields: "date day = k" "allItems day = v"
      "minTemp day = Math_min ?temps" "maxTemp day = Math_max ?temps"
      by (simp_all add: day dayOf_def)
    have fin: "finite (set ?temps)" by simp
    from tne have sne: "set ?temps \<noteq> {}" by simp
    have bounds: "Min (set ?temps) \<le> temp (main item) \<and> temp (main item) \<le> Max (set ?temps)"
      if "item \<in> set v" for item
    proof -
      from that have "temp (main item) \<in> set ?temps" by simp
      with fin show ?thesis by (simp only: Min_le Max_ge)
    qed
    from ne obtain x where "x \<in> set v" by (cases v) auto
    from bounds [OF this] have "Min (set ?temps) \<le> Max (set ?temps)"
      by linarith
    with fields v ne bounds Math_min_Min [OF tne] Math_max_Max [OF tne]
    show ?thesis by simp
  qed
  with res show ?thesis by blast
qed

lemma forecast_dayOf: "forecast (dayOf h (k, items)) = representative h items"
  by (simp add: dayOf_def)

lemma representative_noon:
  "find (isNoon h) items = Some p \<Longrightarrow> representative h items = Some p"
  by (simp add: representative_def orObject_def)

lemma representative_middle:
  "find (isNoon h) items = None \<Longrightarrow> items \<noteq> [] \<Longrightarrow>
   representative h items = Some (items ! (length items div 2))"
  by (simp add: representative_def orObject_def at_index_def)

text \<open>
  Claim C2, as the code has it. The representative point of a day with a non-empty item
  list is the first item, in the order of the list (which is the order of the input
  sequence), whose local hour is between 11 and 14; when the timestamps of the list are
  ascending it is the earliest such item. When no item qualifies, it is the item at index
  \<open>length div 2\<close>.
\<close>

theorem representative_point:
  assumes "items \<noteq> []"
  shows "forecast (dayOf h (k, items)) = representative h items \<and>
     ((\<exists>p \<in> set items. isNoon h p) \<longrightarrow>
        (\<exists>i < length items.
           representative h items = Some (items ! i) \<and> isNoon h (items ! i) \<and>
           (\<forall>j < i. \<not> isNoon h (items ! j)) \<and>
           (sorted (map dt items) \<longrightarrow>
              (\<forall>q \<in> set items. isNoon h q \<longrightarrow> dt (items ! i) \<le> dt q)))) \<and>
     ((\<forall>p \<in> set items. \<not> isNoon h p) \<longrightarrow>
        representative h items = Some (items ! (length items div 2)))"
proof (intro conjI impI)
  show "forecast (dayOf h (k, items)) = representative h items"
    by (rule forecast_dayOf)
next
  assume "\<exists>p \<in> set items. isNoon h p"
  then obtain p where "find (isNoon h) items = Some p"
    by (cases "find (isNoon h) items") (auto simp: find_None_iff)
  then obtain i where i: "i < length items" "isNoon h (items ! i)" "p = items ! i"
      "\<forall>j < i. \<not> isNoon h (items ! j)"
    and r: "representative h items = Some p"
    by (auto simp: find_Some_iff representative_noon)
  have "dt (items ! i) \<le> dt q"
    if s: "sorted (map dt items)" and q: "q \<in> set items" "isNoon h q" for q
  proof -
    from q obtain j where j: "j < length items" "items ! j = q"
      by (auto simp: in_set_conv_nth)
    with i q have "i \<le> j" by (metis not_le_imp_less)
    from s have "\<forall>a b. a \<le> b \<longrightarrow> b < length items \<longrightarrow> dt (items ! a) \<le> dt (items ! b)"
      by (simp add: sorted_iff_nth_mono)
    with j \<open>i \<le> j\<close> show ?thesis by blast
  qed
  with i r show "\<exists>i < length items.
           representative h items = Some (items ! i) \<and> isNoon h (items ! i) \<and>
           (\<forall>j < i. \<not> isNoon h (items ! j)) \<and>
           (sorted (map dt items) \<longrightarrow>
              (\<forall>q \<in> set items. isNoon h q \<longrightarrow> dt (items ! i) \<le> dt q))"
    by blast
next
  assume "\<forall>p \<in> set items. \<not> isNoon h p"
  then have "find (isNoon h) items = None" by (simp add: find_None_iff)
  then show "representative h items = Some (items ! (length items div 2))"
    using assms by (rule representative_middle)
qed

theorem daily_buckets_count_and_order_witness:
  "list_all validTime six_days \<and> card (dateKey ` set six_days) = 6 \<and>
   (\<exists>days. dailyForecasts utc_noon six_days = Inr days \<and>
      length days = min (card (dateKey ` set six_days)) 5 \<and> length days = 5 \<and>
      map date days = [''2024-01-01'', ''2024-01-02'', ''2024-01-03'', ''2024-01-04'', ''2024-01-05''] \<and>
      sorted_wrt (\<lambda>a b. localeCompare a b < 0) (map date days))"
proof -
  have v: "list_all validTime six_days"
    by (simp add: six_days_def validTime_def point_def)
  then have "\<forall>item \<in> set six_days. validTime item"
    by (simp add: list_all_iff)
  from daily_buckets_count_and_order [OF this, of utc_noon] obtain days
    where d: "dailyForecasts utc_noon six_days = Inr days"
      and n: "length days = min (card (dateKey ` set six_days)) 5"
      and s: "sorted_wrt (\<lambda>a b. localeCompare a b < 0) (map date days)"
    by blast
  have c: "card (dateKey ` set six_days) = 6"
    by code_simp
  have "map_sum id (map date) (dailyForecasts utc_noon six_days) =
      Inr [''2024-01-01'', ''2024-01-02'', ''2024-01-03'', ''2024-01-04'', ''2024-01-05'']"
    by code_simp
  with d have e: "map date days =
      [''2024-01-01'', ''2024-01-02'', ''2024-01-03'', ''2024-01-04'', ''2024-01-05'']"
    by simp
  from n c have l: "length days = 5" by simp
  from d n l e s have "\<exists>days. dailyForecasts utc_noon six_days = Inr days \<and>
      length days = min (card (dateKey ` set six_days)) 5 \<and> length days = 5 \<and>
      map date days = [''2024-01-01'', ''2024-01-02'', ''2024-01-03'', ''2024-01-04'', ''2024-01-05''] \<and>
      sorted_wrt (\<lambda>a b. localeCompare a b < 0) (map date days)"
    by (intro exI [of _ days] conjI)
  with v c show ?thesis by (intro conjI)
qed

theorem day_min_max_temperature_witness:
  "list_all validTime two_days \<and>
   (\<exists>days. dailyForecasts utc_noon two_days = Inr days \<and>
      map (\<lambda>day. (date day, minTemp day, maxTemp day, map (\<lambda>item. temp_min (main item)) (allItems day))) days =
        [(''2024-01-01'', Finite 3, Finite 5, [2, 4]), (''2024-01-02'', Finite 4, Finite 4, [3])] \<and>
      list_all (\<lambda>day. allItems day = filter (\<lambda>item. dateKey item = date day) two_days) days)"
proof -
  have v: "list_all validTime two_days"
    by (simp add: two_days_def validTime_def point_def)
  then have "\<forall>item \<in> set two_days. validTime item"
    by (simp add: list_all_iff)
  from day_min_max_temperature [OF this, of utc_noon] obtain days
    where d: "dailyForecasts utc_noon two_days = Inr days"
      and a: "\<forall>day \<in> set days. allItems day = filter (\<lambda>item. dateKey item = date day) two_days"
    by blast
  have "map_sum id (map (\<lambda>day. (date day, minTemp day, maxTemp day,
        map (\<lambda>item. temp_min (main item)) (allItems day)))) (dailyForecasts utc_noon two_days) =
      Inr [(''2024-01-01'', Finite 3, Finite 5, [2, 4]), (''2024-01-02'', Finite 4, Finite 4, [3])]"
    by code_simp
  with d have e: "map (\<lambda>day. (date day, minTemp day, maxTemp day,
        map (\<lambda>item. temp_min (main item)) (allItems day))) days =
      [(''2024-01-01'', Finite 3, Finite 5, [2, 4]), (''2024-01-02'', Finite 4, Finite 4, [3])]"
    by simp
  from a have "list_all (\<lambda>day. allItems day = filter (\<lambda>item. dateKey item = date day) two_days) days"
    by (simp add: list_all_iff)
  with d e have "\<exists>days. dailyForecasts utc_noon two_days = Inr days \<and>
      map (\<lambda>day. (date day, minTemp day, maxTemp day, map (\<lambda>item. temp_min (main item)) (allItems day))) days =
        [(''2024-01-01'', Finite 3, Finite 5, [2, 4]), (''2024-01-02'', Finite 4, Finite 4, [3])] \<and>
      list_all (\<lambda>day. allItems day = filter (\<lambda>item. dateKey item = date day) two_days) days"
    by (intro exI [of _ days] conjI)
  with v show ?thesis by (rule conjI)
qed

theorem representative_point_witness:
  "morning_to_noon \<noteq> [] \<and> sorted (map dt morning_to_noon) \<and>
   isNoon utc_noon (point 1704106800 3) \<and>
   representative utc_noon morning_to_noon = Some (point 1704106800 3) \<and>
   night \<noteq> [] \<and> list_all (\<lambda>p. \<not> isNoon utc_noon p) night \<and>
   representative utc_noon night = Some (point 1704078000 0)"
proof -
  have a: "morning_to_noon \<noteq> []" and b: "night \<noteq> []"
    by (simp_all add: morning_to_noon_def night_def)
  have s: "sorted (map dt morning_to_noon)"
    by (simp add: morning_to_noon_def point_def)
  have n: "isNoon utc_noon (point 1704106800 3)" by code_simp
  have r: "representative utc_noon morning_to_noon = Some (point 1704106800 3)" by code_simp
  have m: "list_all (\<lambda>p. \<not> isNoon utc_noon p) night" by code_simp
  then have "\<forall>p \<in> set night. \<not> isNoon utc_noon p" by (simp add: list_all_iff)
  with representative_point [OF b, of utc_noon "''2024-01-01''"]
  have "representative utc_noon night = Some (night ! (length night div 2))" by blast
  then have "representative utc_noon night = Some (point 1704078000 0)"
    by (simp add: night_def)
  with a b s n r m show ?thesis by (intro conjI)
qed

text \<open>
  Claim C2 as stated fails on a sequence that is not in chronological order: of the two
  points at 13:00 and 11:00 UTC of the same day, given in this order, the one at 13:00 is
  chosen, and the one at 11:00 is earlier and qualifies too.
\<close>

theorem representative_not_chronological_counterexample:
  "dailyForecasts utc_noon [point 1704114000 5, point 1704106800 3] =
     Inr [\<lparr>date = ''2024-01-01'', displayDate = ''Today'',
           forecast = Some (point 1704114000 5), minTemp = Finite 3, maxTemp = Finite 5,
           allItems = [point 1704114000 5, point 1704106800 3]\<rparr>] \<and>
   isNoon utc_noon (point 1704106800 3) \<and>
   dt (point 1704106800 3) < dt (point 1704114000 5)"
  by code_simp

text \<open>
  Claim C8 fails where the local time zone is not UTC. At 10:00 on 1 January 2024 in a
  zone five hours west of UTC, with a first point at that very instant, the day of key
  \<open>2024-01-01\<close> is labelled \<open>Sun, Dec 31\<close> and the day of key \<open>2024-01-02\<close> is labelled
  \<open>Today\<close>: the key is a UTC date, \<open>new Date(dateKey)\<close> is midnight UTC of that date, and
  \<open>setHours(0, 0, 0, 0)\<close> moves it to the local midnight before it. At 00:10 on 2 January
  2024 in a zone five and a half hours east of UTC, a first point at 02:30 local time has
  the key \<open>2024-01-01\<close> and its day is labelled \<open>Mon, Jan 1\<close>.
\<close>

theorem today_label_off_utc:
  "LocalTime new_york_morning (dt (hd new_year) * 1000) div msPerDay =
     LocalTime new_york_morning (now new_york_morning) div msPerDay \<and>
   map_sum id (map (\<lambda>day. (date day, displayDate day))) (dailyForecasts new_york_morning new_year) =
     Inr [(''2024-01-01'', ''Sun, Dec 31''), (''2024-01-02'', ''Today'')] \<and>
   LocalTime kolkata_after_midnight (dt (hd new_year_evening) * 1000) div msPerDay =
     LocalTime kolkata_after_midnight (now kolkata_after_midnight) div msPerDay \<and>
   map_sum id (map (\<lambda>day. (date day, displayDate day)))
       (dailyForecasts kolkata_after_midnight new_year_evening) =
     Inr [(''2024-01-01'', ''Mon, Jan 1''), (''2024-01-02'', ''Today'')]"
  by code_simp

end
